theory Spec2Isabelle
  imports Complex_Main "HOL-Library.Word"
begin

section \<open>Numbers\<close>

text \<open>
  A JavaScript number is a double: \<open>NaN\<close>, an infinity, \<open>- 0\<close>, or a finite value,
  held here as the rational it is (\<open>Num 0\<close> is \<open>+ 0\<close>). The values of \<open>Num\<close> that
  are numbers of JavaScript are those that \<open>to_double\<close> leaves as they are.
\<close>

datatype number = NaN | PosInf | NegInf | NegZero | Num rat

fun is_finite :: "number \<Rightarrow> bool" where
  "is_finite NaN = False"
| "is_finite PosInf = False"
| "is_finite NegInf = False"
| "is_finite NegZero = True"
| "is_finite (Num q) = True"

fun negate :: "number \<Rightarrow> number" where
  "negate NaN = NaN"
| "negate PosInf = NegInf"
| "negate NegInf = PosInf"
| "negate NegZero = Num 0"
| "negate (Num q) = (if q = 0 then NegZero else Num (- q))"

text \<open>The number of digits of \<open>n\<close> in base \<open>b\<close>.\<close>

function digit_count :: "nat \<Rightarrow> nat \<Rightarrow> nat" where
  "digit_count b n = (if n = 0 \<or> b < 2 then 0 else Suc (digit_count b (n div b)))"
  by pat_completeness auto
termination
  by (relation "measure snd") auto

declare digit_count.simps [simp del]

text \<open>
  For a positive \<open>q\<close>, the exponent \<open>e\<close> with \<open>b ^ e \<le> q < b ^ (e + 1)\<close>.
\<close>

definition floor_log :: "nat \<Rightarrow> rat \<Rightarrow> int" where
  "floor_log b q =
     (if 1 \<le> q then int (digit_count b (nat \<lfloor>q\<rfloor>)) - 1
      else - int (digit_count b (nat \<lceil>1 / q\<rceil> - 1)))"

definition round_half_even :: "rat \<Rightarrow> int" where
  "round_half_even r =
     (let f = \<lfloor>r\<rfloor>; d = r - of_int f in
      if d < 1 / 2 then f
      else if 1 / 2 < d then f + 1
      else if even f then f else f + 1)"

text \<open>
  The Number value of a real that is not negative: the nearest double, the one with an even
  significand when two are as near, and \<open>Infinity\<close> when that is \<open>2 ^ 1024\<close> or more. The
  doubles near \<open>q\<close> are the multiples of \<open>2 ^ u\<close>, where \<open>u\<close> is 52 below the binary
  exponent of \<open>q\<close> and at least \<open>- 1074\<close>.
\<close>

definition to_double :: "rat \<Rightarrow> number" where
  "to_double q =
     (if q \<le> 0 then Num 0
      else
        (let u = max (floor_log 2 q - 52) (- 1074);
             r = of_int (round_half_even (q / 2 powi u)) * 2 powi u
         in if 2 powi 1024 \<le> r then PosInf else Num r))"

text \<open>
  \<open>Number::toString\<close>, in base 10. The digits of a positive number are those of the
  shortest decimal \<open>s * 10 ^ e\<close> whose Number value it is, and of two of a length the
  nearer; the search goes from one digit on and ends at the latest at the place
  \<open>10 ^ - 1074\<close>, where the digits of every double have ended.
\<close>

definition digit_char :: "nat \<Rightarrow> char" where
  "digit_char d = char_of (48 + d)"

function show_nat :: "nat \<Rightarrow> string" where
  "show_nat n = (if n < 10 then [digit_char n] else show_nat (n div 10) @ [digit_char (n mod 10)])"
  by pat_completeness auto
termination
  by (relation "measure id") auto

declare show_nat.simps [simp del]

text \<open>
  The two multiples of \<open>10 ^ e\<close> that \<open>q\<close> lies between, the nearer one first, the even
  one when they are as near.
\<close>

definition candidates :: "rat \<Rightarrow> int \<Rightarrow> (nat \<times> int) list" where
  "candidates q e =
     (let t = q / 10 powi e; lo = nat \<lfloor>t\<rfloor>; hi = lo + 1 in
      if t - of_nat lo < of_nat hi - t then [(lo, e), (hi, e)]
      else if of_nat hi - t < t - of_nat lo then [(hi, e), (lo, e)]
      else if even lo then [(lo, e), (hi, e)] else [(hi, e), (lo, e)])"

function digits_from :: "rat \<Rightarrow> int \<Rightarrow> (nat \<times> int) option" where
  "digits_from q e =
     (case find (\<lambda>(s, e'). to_double (of_nat s * 10 powi e') = Num q) (candidates q e) of
        Some c \<Rightarrow> Some c
      | None \<Rightarrow> if e \<le> - 1074 then None else digits_from q (e - 1))"
  by pat_completeness auto
termination
  by (relation "measure (\<lambda>(q, e). nat (e + 1074))") auto

declare digits_from.simps [simp del]

text \<open>The digits without the zeros at their end.\<close>

function strip_zeros :: "nat \<Rightarrow> int \<Rightarrow> nat \<times> int" where
  "strip_zeros s e = (if 0 < s \<and> s mod 10 = 0 then strip_zeros (s div 10) (e + 1) else (s, e))"
  by pat_completeness auto
termination
  by (relation "measure fst") auto

declare strip_zeros.simps [simp del]

text \<open>
  The digits \<open>ds\<close> with the point after the first \<open>n\<close> of them: plainly when \<open>n\<close> is
  from \<open>- 5\<close> to 21, with an exponent otherwise.
\<close>

definition format_digits :: "string \<Rightarrow> int \<Rightarrow> string" where
  "format_digits ds n =
     (let k = int (length ds) in
      if - 6 < n \<and> n \<le> 21 then
        (if k \<le> n then ds @ replicate (nat (n - k)) (CHR ''0'')
         else if 0 < n then take (nat n) ds @ ''.'' @ drop (nat n) ds
         else ''0.'' @ replicate (nat (- n)) (CHR ''0'') @ ds)
      else
        (let es = (if n - 1 < 0 then CHR ''-'' else CHR ''+'') # show_nat (nat \<bar>n - 1\<bar>) in
         if k = 1 then ds @ ''e'' @ es
         else take 1 ds @ ''.'' @ drop 1 ds @ ''e'' @ es))"

text \<open>
  The text of a positive double. (Of a rational that is no double no digits are found, and
  the text is empty.)
\<close>

definition positive_to_string :: "rat \<Rightarrow> string" where
  "positive_to_string q =
     (case digits_from q (floor_log 10 q) of
        None \<Rightarrow> []
      | Some (s, e) \<Rightarrow>
          (let (s', e') = strip_zeros s e; ds = show_nat s' in
           format_digits ds (e' + int (length ds))))"

fun number_to_string :: "number \<Rightarrow> string" where
  "number_to_string NaN = ''NaN''"
| "number_to_string PosInf = ''Infinity''"
| "number_to_string NegInf = ''-Infinity''"
| "number_to_string NegZero = ''0''"
| "number_to_string (Num q) =
     (if q = 0 then ''0''
      else if q < 0 then CHR ''-'' # positive_to_string (- q)
      else positive_to_string q)"

section \<open>JavaScript values\<close>

text \<open>
  The payloads that the encryption service seals are JavaScript values. A \<open>Date\<close> object is
  represented by the text \<open>toISOString()\<close> gives for it; a string by its UTF-8 bytes; an
  object by its properties in insertion order.
\<close>

type_synonym byte = "8 word"
type_synonym date = string

datatype jsval =
    JUndefined
  | JNull
  | JBool bool
  | JNum number
  | JStr string
  | JDate date
  | JArr "jsval list"
  | JObj "(string \<times> jsval) list"

text \<open>
  A size or a counter is an integer below \<open>2 ^ 53\<close>, which a number holds as it is. An
  \<open>_id\<close> is written as a number as well.
\<close>

abbreviation JInt :: "int \<Rightarrow> jsval" where
  "JInt n \<equiv> JNum (Num (of_int n))"

text \<open>\<open>!v\<close> is \<open>\<not> truthy v\<close>.\<close>

fun truthy :: "jsval \<Rightarrow> bool" where
  "truthy JUndefined = False"
| "truthy JNull = False"
| "truthy (JBool b) = b"
| "truthy (JNum x) = (x \<noteq> NaN \<and> x \<noteq> NegZero \<and> x \<noteq> Num 0)"
| "truthy (JStr s) = (s \<noteq> [])"
| "truthy (JDate d) = True"
| "truthy (JArr xs) = True"
| "truthy (JObj fs) = True"

text \<open>
  \<open>v.name\<close>: a \<open>TypeError\<close> (\<open>None\<close>) on \<open>undefined\<close> and \<open>null\<close>, the property's
  value on an object that has it, \<open>undefined\<close> otherwise.
\<close>

fun get_prop :: "jsval \<Rightarrow> string \<Rightarrow> jsval option" where
  "get_prop JUndefined k = None"
| "get_prop JNull k = None"
| "get_prop (JObj fs) k = (case map_of fs k of Some v \<Rightarrow> Some v | None \<Rightarrow> Some JUndefined)"
| "get_prop v k = Some JUndefined"

section \<open>JSON text\<close>

subsection \<open>Writing: \<open>JSON.stringify\<close>\<close>

definition hex_digit :: "nat \<Rightarrow> char" where
  "hex_digit d = (if d < 10 then char_of (48 + d) else char_of (87 + d))"

text \<open>One character of a string literal, as \<open>QuoteJSONString\<close> writes it.\<close>

definition quote_char :: "char \<Rightarrow> string" where
  "quote_char c =
     (if c = CHR 0x22 then [CHR 0x5C, CHR 0x22]
      else if c = CHR 0x5C then [CHR 0x5C, CHR 0x5C]
      else if c = CHR 0x08 then [CHR 0x5C, CHR ''b'']
      else if c = CHR 0x0C then [CHR 0x5C, CHR ''f'']
      else if c = CHR 0x0A then [CHR 0x5C, CHR ''n'']
      else if c = CHR 0x0D then [CHR 0x5C, CHR ''r'']
      else if c = CHR 0x09 then [CHR 0x5C, CHR ''t'']
      else if (of_char c :: nat) < 32
        then [CHR 0x5C, CHR ''u'', CHR ''0'', CHR ''0'',
              hex_digit (of_char c div 16), hex_digit (of_char c mod 16)]
      else [c])"

definition quote :: "string \<Rightarrow> string" where
  "quote s = CHR 0x22 # concat (map quote_char s) @ [CHR 0x22]"

fun join_with :: "string \<Rightarrow> string list \<Rightarrow> string" where
  "join_with sep [] = []"
| "join_with sep [x] = x"
| "join_with sep (x # y # ys) = x @ sep @ join_with sep (y # ys)"

text \<open>
  \<open>stringify\<close> is \<open>SerializeJSONProperty\<close>: \<open>None\<close> where JavaScript gives
  \<open>undefined\<close>. A number that is not finite is written as \<open>null\<close>; a \<open>Date\<close> is
  written through its \<open>toJSON\<close>, as a string; an \<open>undefined\<close> array element as
  \<open>null\<close>; a property whose value is \<open>undefined\<close> is left out.
\<close>

fun stringify :: "jsval \<Rightarrow> string option"
  and stringify_elems :: "jsval list \<Rightarrow> string list"
  and stringify_props :: "(string \<times> jsval) list \<Rightarrow> string list" where
  "stringify JUndefined = None"
| "stringify JNull = Some ''null''"
| "stringify (JBool b) = Some (if b then ''true'' else ''false'')"
| "stringify (JNum x) = Some (if is_finite x then number_to_string x else ''null'')"
| "stringify (JStr s) = Some (quote s)"
| "stringify (JDate d) = Some (quote d)"
| "stringify (JArr xs) = Some (''['' @ join_with '','' (stringify_elems xs) @ '']'')"
| "stringify (JObj fs) = Some (''{'' @ join_with '','' (stringify_props fs) @ ''}'')"
| "stringify_elems [] = []"
| "stringify_elems (x # xs) =
     (case stringify x of None \<Rightarrow> ''null'' | Some t \<Rightarrow> t) # stringify_elems xs"
| "stringify_props [] = []"
| "stringify_props ((k, v) # fs) =
     (case stringify v of None \<Rightarrow> stringify_props fs
      | Some t \<Rightarrow> (quote k @ '':'' @ t) # stringify_props fs)"

definition JSON_stringify :: "jsval \<Rightarrow> string option" where
  "JSON_stringify v = stringify v"

subsection \<open>Reading: \<open>JSON.parse\<close>\<close>

definition is_ws :: "char \<Rightarrow> bool" where
  "is_ws c \<longleftrightarrow> c = CHR 0x20 \<or> c = CHR 0x09 \<or> c = CHR 0x0A \<or> c = CHR 0x0D"

definition skip_ws :: "string \<Rightarrow> string" where
  "skip_ws s = dropWhile is_ws s"

definition is_digit :: "char \<Rightarrow> bool" where
  "is_digit c \<longleftrightarrow> 48 \<le> (of_char c :: nat) \<and> (of_char c :: nat) \<le> 57"

definition read_nat :: "string \<Rightarrow> nat" where
  "read_nat ds = foldl (\<lambda>a c. 10 * a + (of_char c - 48)) 0 ds"

definition hex_val :: "char \<Rightarrow> nat option" where
  "hex_val c =
     (let n = (of_char c :: nat) in
      if 48 \<le> n \<and> n \<le> 57 then Some (n - 48)
      else if 97 \<le> n \<and> n \<le> 102 then Some (n - 87)
      else if 65 \<le> n \<and> n \<le> 70 then Some (n - 55)
      else None)"

text \<open>The UTF-8 bytes of the code unit that a \<open>\uXXXX\<close> escape names.\<close>

definition utf8_of_code :: "nat \<Rightarrow> string" where
  "utf8_of_code n =
     (if n < 128 then [char_of n]
      else if n < 2048 then [char_of (192 + n div 64), char_of (128 + n mod 64)]
      else [char_of (224 + n div 4096), char_of (128 + (n div 64) mod 64),
            char_of (128 + n mod 64)])"

definition unescape_u :: "char \<Rightarrow> char \<Rightarrow> char \<Rightarrow> char \<Rightarrow> string option" where
  "unescape_u a b c d =
     (case (hex_val a, hex_val b, hex_val c, hex_val d) of
        (Some w, Some x, Some y, Some z) \<Rightarrow>
          Some (utf8_of_code (4096 * w + 256 * x + 16 * y + z))
      | _ \<Rightarrow> None)"

definition unescape_simple :: "char \<Rightarrow> char option" where
  "unescape_simple e =
     (if e = CHR 0x22 then Some (CHR 0x22)
      else if e = CHR 0x5C then Some (CHR 0x5C)
      else if e = CHR ''/'' then Some (CHR ''/'')
      else if e = CHR ''b'' then Some (CHR 0x08)
      else if e = CHR ''f'' then Some (CHR 0x0C)
      else if e = CHR ''n'' then Some (CHR 0x0A)
      else if e = CHR ''r'' then Some (CHR 0x0D)
      else if e = CHR ''t'' then Some (CHR 0x09)
      else None)"

text \<open>
  The body of a string literal, after its opening quote: the string it denotes and the text
  after the closing quote. A raw control character and an unknown escape are syntax errors.
\<close>

fun scan_string :: "string \<Rightarrow> (string \<times> string) option" where
  "scan_string [] = None"
| "scan_string [c] = (if c = CHR 0x22 then Some ([], []) else None)"
| "scan_string (c # e # r) =
     (if c = CHR 0x22 then Some ([], e # r)
      else if c = CHR 0x5C then
        (if e = CHR ''u'' then
           (case r of
              a # b # x # y # r' \<Rightarrow>
                (case unescape_u a b x y of
                   None \<Rightarrow> None
                 | Some u \<Rightarrow>
                     (case scan_string r' of
                        None \<Rightarrow> None
                      | Some (s, t) \<Rightarrow> Some (u @ s, t)))
            | _ \<Rightarrow> None)
         else
           (case unescape_simple e of
              None \<Rightarrow> None
            | Some ch \<Rightarrow>
                (case scan_string r of
                   None \<Rightarrow> None
                 | Some (s, t) \<Rightarrow> Some (ch # s, t))))
      else if (of_char c :: nat) < 32 then None
      else
        (case scan_string (e # r) of
           None \<Rightarrow> None
         | Some (s, t) \<Rightarrow> Some (c # s, t)))"

text \<open>
  A number literal: an integer part without a needless zero at its front, then a fraction
  and an exponent, which can each be absent. Its value is the Number value of the decimal
  it writes; \<open>-0\<close> is read as \<open>- 0\<close>.
\<close>

definition scan_fraction :: "string \<Rightarrow> (string \<times> string) option" where
  "scan_fraction s =
     (case s of
        c # r \<Rightarrow>
          if c = CHR ''.'' then
            (let fs = takeWhile is_digit r in
             if fs = [] then None else Some (fs, dropWhile is_digit r))
          else Some ([], s)
      | [] \<Rightarrow> Some ([], s))"

definition scan_exponent :: "string \<Rightarrow> (int \<times> string) option" where
  "scan_exponent s =
     (case s of
        c # r \<Rightarrow>
          if c = CHR ''e'' \<or> c = CHR ''E'' then
            (let neg = (r \<noteq> [] \<and> hd r = CHR ''-'');
                 r' = (if r \<noteq> [] \<and> (hd r = CHR ''-'' \<or> hd r = CHR ''+'') then tl r else r);
                 ds = takeWhile is_digit r'
             in if ds = [] then None
                else Some (if neg then - int (read_nat ds) else int (read_nat ds),
                           dropWhile is_digit r'))
          else Some (0, s)
      | [] \<Rightarrow> Some (0, s))"

definition scan_unsigned :: "string \<Rightarrow> (rat \<times> string) option" where
  "scan_unsigned s =
     (let ds = takeWhile is_digit s in
      if ds = [] then None
      else if hd ds = CHR ''0'' \<and> length ds > 1 then None
      else
        (case scan_fraction (dropWhile is_digit s) of
           None \<Rightarrow> None
         | Some (fs, r) \<Rightarrow>
             (case scan_exponent r of
                None \<Rightarrow> None
              | Some (x, r') \<Rightarrow>
                  Some (of_nat (read_nat (ds @ fs)) * 10 powi (x - int (length fs)), r'))))"

definition scan_number :: "string \<Rightarrow> (number \<times> string) option" where
  "scan_number s =
     (case s of
        [] \<Rightarrow> None
      | c # r \<Rightarrow>
          if c = CHR ''-'' then map_option (\<lambda>(v, t). (negate (to_double v), t)) (scan_unsigned r)
          else map_option (\<lambda>(v, t). (to_double v, t)) (scan_unsigned s))"

text \<open>
  Defining a property that the object already has replaces its value and keeps its place.
\<close>

fun obj_set :: "(string \<times> jsval) list \<Rightarrow> string \<Rightarrow> jsval \<Rightarrow> (string \<times> jsval) list" where
  "obj_set [] k v = [(k, v)]"
| "obj_set ((k', v') # fs) k v = (if k' = k then (k, v) # fs else (k', v') # obj_set fs k v)"

text \<open>
  The recursive-descent reader. Its first argument bounds the number of values, elements
  and properties still to be read; \<open>JSON_parse\<close> starts it with more than the text can
  hold.
\<close>

fun parse_value :: "nat \<Rightarrow> string \<Rightarrow> (jsval \<times> string) option"
  and parse_elems :: "nat \<Rightarrow> jsval list \<Rightarrow> string \<Rightarrow> (jsval list \<times> string) option"
  and parse_props :: "nat \<Rightarrow> (string \<times> jsval) list \<Rightarrow> string
                        \<Rightarrow> ((string \<times> jsval) list \<times> string) option" where
  "parse_value 0 s = None"
| "parse_value (Suc n) s =
     (case skip_ws s of
        [] \<Rightarrow> None
      | c # r \<Rightarrow>
          if c = CHR 0x7B then
            (case skip_ws r of
               [] \<Rightarrow> None
             | c' # r' \<Rightarrow>
                 if c' = CHR 0x7D then Some (JObj [], r')
                 else map_option (\<lambda>(fs, t). (JObj fs, t)) (parse_props n [] r))
          else if c = CHR 0x5B then
            (case skip_ws r of
               [] \<Rightarrow> None
             | c' # r' \<Rightarrow>
                 if c' = CHR 0x5D then Some (JArr [], r')
                 else map_option (\<lambda>(xs, t). (JArr xs, t)) (parse_elems n [] r))
          else if c = CHR 0x22 then map_option (\<lambda>(x, t). (JStr x, t)) (scan_string r)
          else if take 4 (c # r) = ''true'' then Some (JBool True, drop 4 (c # r))
          else if take 5 (c # r) = ''false'' then Some (JBool False, drop 5 (c # r))
          else if take 4 (c # r) = ''null'' then Some (JNull, drop 4 (c # r))
          else map_option (\<lambda>(x, t). (JNum x, t)) (scan_number (c # r)))"
| "parse_elems 0 acc s = None"
| "parse_elems (Suc n) acc s =
     (case parse_value n s of
        None \<Rightarrow> None
      | Some (v, r) \<Rightarrow>
          (case skip_ws r of
             [] \<Rightarrow> None
           | c # r' \<Rightarrow>
               if c = CHR '','' then parse_elems n (acc @ [v]) r'
               else if c = CHR 0x5D then Some (acc @ [v], r')
               else None))"
| "parse_props 0 acc s = None"
| "parse_props (Suc n) acc s =
     (case skip_ws s of
        [] \<Rightarrow> None
      | q # r \<Rightarrow>
          if q \<noteq> CHR 0x22 then None
          else
            (case scan_string r of
               None \<Rightarrow> None
             | Some (k, r1) \<Rightarrow>
                 (case skip_ws r1 of
                    [] \<Rightarrow> None
                  | c # r2 \<Rightarrow>
                      if c \<noteq> CHR '':'' then None
                      else
                        (case parse_value n r2 of
                           None \<Rightarrow> None
                         | Some (v, r3) \<Rightarrow>
                             (case skip_ws r3 of
                                [] \<Rightarrow> None
                              | c' # r4 \<Rightarrow>
                                  if c' = CHR '','' then parse_props n (obj_set acc k v) r4
                                  else if c' = CHR 0x7D then Some (obj_set acc k v, r4)
                                  else None)))))"

definition JSON_parse :: "string \<Rightarrow> jsval option" where
  "JSON_parse s =
     (case parse_value (Suc (length s)) s of
        None \<Rightarrow> None
      | Some (v, r) \<Rightarrow> if skip_ws r = [] then Some v else None)"

section \<open>Buffers and their encodings\<close>

text \<open>
  \<open>Buffer.toString('hex')\<close> and \<open>Buffer.from(s, 'hex')\<close>. Decoding reads pairs of hex
  digits of either case and stops at the first pair that is not one; a last odd character
  is dropped.
\<close>

definition hex_byte :: "byte \<Rightarrow> string" where
  "hex_byte b = [hex_digit (unat b div 16), hex_digit (unat b mod 16)]"

definition hex_encode :: "byte list \<Rightarrow> string" where
  "hex_encode bs = concat (map hex_byte bs)"

fun hex_decode :: "string \<Rightarrow> byte list" where
  "hex_decode (a # b # r) =
     (case hex_val a of
        None \<Rightarrow> []
      | Some x \<Rightarrow>
          (case hex_val b of
             None \<Rightarrow> []
           | Some y \<Rightarrow> of_nat (16 * x + y) # hex_decode r))"
| "hex_decode [a] = []"
| "hex_decode [] = []"

text \<open>A string is held as its UTF-8 bytes, so encoding and decoding only change the type.\<close>

definition utf8_encode :: "string \<Rightarrow> byte list" where
  "utf8_encode s = map (\<lambda>c. of_nat (of_char c)) s"

definition utf8_decode :: "byte list \<Rightarrow> string" where
  "utf8_decode bs = map (\<lambda>b. char_of (unat b)) bs"

section \<open>The platform\<close>

text \<open>
  What Node's \<open>crypto\<close> and \<open>Buffer\<close> modules provide and this repository only calls:
  SHA-256, base64, and AES-256-GCM. \<open>gcm_seal key iv aad plaintext\<close> is the work of
  \<open>createCipheriv\<close>, \<open>setAAD\<close>, \<open>update\<close>, \<open>final\<close> and \<open>getAuthTag\<close>: the
  ciphertext and the tag, or \<open>None\<close> when one of them throws. \<open>gcm_open key iv aad tag
  ciphertext\<close> is the work of \<open>createDecipheriv\<close>, \<open>setAAD\<close>, \<open>setAuthTag\<close>,
  \<open>update\<close> and \<open>final\<close>: the plaintext, or \<open>None\<close> when one of them throws, as
  \<open>final\<close> does when the tag does not authenticate the data.
\<close>

record platform =
  sha256 :: "byte list \<Rightarrow> byte list"
  base64_encode :: "byte list \<Rightarrow> string"
  base64_decode :: "string \<Rightarrow> byte list"
  gcm_seal :: "byte list \<Rightarrow> byte list \<Rightarrow> byte list \<Rightarrow> byte list
                 \<Rightarrow> (byte list \<times> byte list) option"
  gcm_open :: "byte list \<Rightarrow> byte list \<Rightarrow> byte list \<Rightarrow> byte list \<Rightarrow> byte list
                 \<Rightarrow> byte list option"

text \<open>\<open>crypto.randomBytes\<close>: the generator's output stream and how much of it is used.\<close>

record rng =
  entropy :: "nat \<Rightarrow> byte"
  drawn :: nat

definition randomBytes :: "nat \<Rightarrow> rng \<Rightarrow> byte list \<times> rng" where
  "randomBytes n g = (map (entropy g) [drawn g ..< drawn g + n], g\<lparr>drawn := drawn g + n\<rparr>)"

section \<open>Errors\<close>

datatype error =
    NoSuchFile string
  | InvalidArgType
  | InvalidArgValue
  | NullProperty
  | CipherError
  | JsonSyntaxError
  | EncryptionFailed
  | DecryptionFailed
  | AnalysisDecryptFailed
  | ContentDecryptFailed
  | InvalidAnalyzerResponse
  | AnalyzerError string
  | ValidationError string
  | DuplicateKey string
  | DocumentNotFound
  | InvalidFileType
  | FileTooLarge

text \<open>
  \<open>error.message\<close>. The texts that the repository writes are given in full; those of the
  libraries are shortened.
\<close>

fun message :: "error \<Rightarrow> string" where
  "message (NoSuchFile p) = ''ENOENT: no such file or directory''"
| "message InvalidArgType = ''The data argument must be of type string or Buffer''"
| "message InvalidArgValue = ''The argument encoding is invalid for data of this length''"
| "message NullProperty = ''Cannot read properties of null''"
| "message CipherError = ''Unsupported state or unable to authenticate data''"
| "message JsonSyntaxError = ''Unexpected token in JSON''"
| "message EncryptionFailed = ''Encryption failed''"
| "message DecryptionFailed = ''Decryption failed''"
| "message AnalysisDecryptFailed = ''Failed to decrypt analysis data''"
| "message ContentDecryptFailed = ''Failed to decrypt content data''"
| "message InvalidAnalyzerResponse = ''Invalid response from local analyzer''"
| "message (AnalyzerError m) = m"
| "message (ValidationError f) = ''ContractSignature validation failed''"
| "message (DuplicateKey i) = ''E11000 duplicate key error''"
| "message DocumentNotFound = ''No document found for query''"
| "message InvalidFileType = ''Invalid file type. Only PDF, DOCX, and TXT files are allowed.''"
| "message FileTooLarge = ''File too large''"

text \<open>
  \<open>error.response.status\<close>, which the error of an HTTP client has. No error raised in
  this subsystem has a \<open>response\<close>.
\<close>

fun response_status :: "error \<Rightarrow> nat option" where
  "response_status e = None"

section \<open>EncryptionService\<close>

definition AAD :: "byte list" where
  "AAD = utf8_encode ''contract-signature''"

definition generateKey :: "platform \<Rightarrow> rng \<Rightarrow> string \<times> rng" where
  "generateKey P g = (let (bs, g') = randomBytes 32 g in (base64_encode P bs, g'))"

definition generateIV :: "platform \<Rightarrow> rng \<Rightarrow> string \<times> rng" where
  "generateIV P g = (let (bs, g') = randomBytes 16 g in (base64_encode P bs, g'))"

definition encrypt :: "platform \<Rightarrow> jsval \<Rightarrow> string \<Rightarrow> string \<Rightarrow> error + (string \<times> string)" where
  "encrypt P data key iv =
     (let keyBuffer = base64_decode P key; ivBuffer = base64_decode P iv in
      case JSON_stringify data of
        None \<Rightarrow> Inl EncryptionFailed
      | Some text \<Rightarrow>
          (case gcm_seal P keyBuffer ivBuffer AAD (utf8_encode text) of
             None \<Rightarrow> Inl EncryptionFailed
           | Some (encrypted, tag) \<Rightarrow> Inr (hex_encode encrypted, hex_encode tag)))"

text \<open>
  The key, the iv and the tag are decoded by \<open>Buffer.from\<close>, which reads what it can. The
  ciphertext is decoded by \<open>decipher.update(encryptedData, 'hex', 'utf8')\<close>, which throws
  on a text with an odd number of characters and reads an even one as \<open>Buffer.from\<close>
  does. Every error is caught and replaced by \<open>Decryption failed\<close>.
\<close>

definition decrypt :: "platform \<Rightarrow> string \<Rightarrow> string \<Rightarrow> string \<Rightarrow> string \<Rightarrow> error + jsval" where
  "decrypt P encryptedData key iv tag =
     (let keyBuffer = base64_decode P key; ivBuffer = base64_decode P iv;
          tagBuffer = hex_decode tag in
      if odd (length encryptedData) then Inl DecryptionFailed
      else
        (case gcm_open P keyBuffer ivBuffer AAD tagBuffer (hex_decode encryptedData) of
           None \<Rightarrow> Inl DecryptionFailed
         | Some decrypted \<Rightarrow>
             (case JSON_parse (utf8_decode decrypted) of
                None \<Rightarrow> Inl DecryptionFailed
              | Some v \<Rightarrow> Inr v)))"

definition generateFileHash :: "platform \<Rightarrow> byte list option \<Rightarrow> error + string" where
  "generateFileHash P fileBuffer =
     (case fileBuffer of
        None \<Rightarrow> Inl InvalidArgType
      | Some bs \<Rightarrow> Inr (hex_encode (sha256 P bs)))"

section \<open>ContractSignatureService\<close>

record signatureData =
  s_key :: string
  s_iv :: string
  s_encryptedContent :: string
  s_contentTag :: string
  s_encryptedAnalysis :: string
  s_analysisTag :: string

definition createSignature ::
  "platform \<Rightarrow> jsval \<Rightarrow> jsval \<Rightarrow> nat \<Rightarrow> rng \<Rightarrow> (error + signatureData) \<times> rng" where
  "createSignature P contractData analysisData userId g =
     (let (key, g1) = generateKey P g;
          (iv, g2) = generateIV P g1 in
      case encrypt P contractData key iv of
        Inl e \<Rightarrow> (Inl e, g2)
      | Inr (encC, tagC) \<Rightarrow>
          (case encrypt P analysisData key iv of
             Inl e \<Rightarrow> (Inl e, g2)
           | Inr (encA, tagA) \<Rightarrow>
               (Inr \<lparr>s_key = key, s_iv = iv,
                     s_encryptedContent = encC, s_contentTag = tagC,
                     s_encryptedAnalysis = encA, s_analysisTag = tagA\<rparr>, g2)))"

section \<open>The ContractSignature model\<close>

datatype status = Active | Archived | Deleted

record contract_doc =
  doc_id :: nat
  fileHash :: string
  fileName :: string
  fileSize :: int
  fileType :: string
  uploadedBy :: nat
  encryptedContent :: string
  encryptedAnalysis :: string
  encryptionKey :: string
  iv :: string
  contentTag :: string
  analysisTag :: string
  analysisDate :: date
  analysisVersion :: string
  accessCount :: int
  lastAccessed :: date
  status :: status
  createdAt :: date
  updatedAt :: date

text \<open>
  The schema's validators, run by \<open>save\<close>: every path is \<open>required\<close>, which for a string
  also refuses the empty one. The first path that fails is reported.
\<close>

definition validate :: "contract_doc \<Rightarrow> error option" where
  "validate d =
     (if fileHash d = [] then Some (ValidationError ''fileHash'')
      else if fileName d = [] then Some (ValidationError ''fileName'')
      else if fileType d = [] then Some (ValidationError ''fileType'')
      else if encryptedContent d = [] then Some (ValidationError ''encryptedContent'')
      else if encryptedAnalysis d = [] then Some (ValidationError ''encryptedAnalysis'')
      else if encryptionKey d = [] then Some (ValidationError ''encryptionKey'')
      else if iv d = [] then Some (ValidationError ''iv'')
      else if contentTag d = [] then Some (ValidationError ''contentTag'')
      else if analysisTag d = [] then Some (ValidationError ''analysisTag'')
      else None)"

text \<open>
  \<open>save\<close> of a new document. The schema declares \<open>fileHash\<close> with \<open>unique: true\<close>: the
  collection has a unique index on \<open>fileHash\<close> alone, over the documents of every uploader
  and every status, and the insert of a second document with a stored \<open>fileHash\<close> fails
  with a duplicate-key error. The index on \<open>(fileHash, uploadedBy)\<close> is not unique.
\<close>

definition save_new :: "contract_doc \<Rightarrow> contract_doc list \<Rightarrow> error + contract_doc list" where
  "save_new d ds =
     (case validate d of
        Some e \<Rightarrow> Inl e
      | None \<Rightarrow>
          if \<exists>x \<in> set ds. fileHash x = fileHash d then Inl (DuplicateKey ''fileHash_1'')
          else Inr (ds @ [d]))"

text \<open>
  \<open>save\<close> of a document that was loaded and changed in memory: the changed paths
  (\<open>accessCount\<close> and \<open>lastAccessed\<close> are the only ones this repository changes) are
  written to the stored document with the same \<open>_id\<close>, with the values the copy in
  memory holds.
\<close>

definition save_modified ::
  "date \<Rightarrow> contract_doc \<Rightarrow> contract_doc list \<Rightarrow> error + contract_doc list" where
  "save_modified now d ds =
     (if \<exists>x \<in> set ds. doc_id x = doc_id d
      then Inr (map (\<lambda>x. if doc_id x = doc_id d
                          then x\<lparr>accessCount := accessCount d, lastAccessed := lastAccessed d,
                                  updatedAt := now\<rparr>
                          else x) ds)
      else Inl DocumentNotFound)"

text \<open>\<open>findOne({ fileHash, uploadedBy, status: "active" })\<close>\<close>

definition findOne :: "string \<Rightarrow> nat \<Rightarrow> contract_doc list \<Rightarrow> contract_doc option" where
  "findOne h u ds = find (\<lambda>d. fileHash d = h \<and> uploadedBy d = u \<and> status d = Active) ds"

definition incrementAccess ::
  "date \<Rightarrow> contract_doc \<Rightarrow> contract_doc list \<Rightarrow> error + (contract_doc \<times> contract_doc list)" where
  "incrementAccess now d ds =
     (let d' = d\<lparr>accessCount := accessCount d + 1, lastAccessed := now\<rparr> in
      case save_modified now d' ds of
        Inl e \<Rightarrow> Inl e
      | Inr ds' \<Rightarrow> Inr (d'\<lparr>updatedAt := now\<rparr>, ds'))"

text \<open>
  The model's own \<open>decryptData\<close>: the steps of \<open>decrypt\<close>, with the errors as they are
  thrown. Its only callers, \<open>getDecryptedAnalysis\<close> and \<open>getDecryptedContent\<close>, replace
  every error by their own, so which error is thrown where both the text is of odd length
  and the cipher refuses the key or the tag makes no difference.
\<close>

definition decryptData :: "platform \<Rightarrow> string \<Rightarrow> string \<Rightarrow> string \<Rightarrow> string \<Rightarrow> error + jsval" where
  "decryptData P encryptedData key ivs tag =
     (let keyBuffer = base64_decode P key; ivBuffer = base64_decode P ivs;
          tagBuffer = hex_decode tag in
      if odd (length encryptedData) then Inl InvalidArgValue
      else
        (case gcm_open P keyBuffer ivBuffer AAD tagBuffer (hex_decode encryptedData) of
           None \<Rightarrow> Inl CipherError
         | Some decrypted \<Rightarrow>
             (case JSON_parse (utf8_decode decrypted) of
                None \<Rightarrow> Inl JsonSyntaxError
              | Some v \<Rightarrow> Inr v)))"

definition getDecryptedAnalysis :: "platform \<Rightarrow> contract_doc \<Rightarrow> error + jsval" where
  "getDecryptedAnalysis P d =
     (case decryptData P (encryptedAnalysis d) (encryptionKey d) (iv d) (analysisTag d) of
        Inl e \<Rightarrow> Inl AnalysisDecryptFailed
      | Inr v \<Rightarrow> Inr v)"

definition getDecryptedContent :: "platform \<Rightarrow> contract_doc \<Rightarrow> error + jsval" where
  "getDecryptedContent P d =
     (case decryptData P (encryptedContent d) (encryptionKey d) (iv d) (contentTag d) of
        Inl e \<Rightarrow> Inl ContentDecryptFailed
      | Inr v \<Rightarrow> Inr v)"

section \<open>The routes of smartContractAnalysis\<close>

text \<open>
  What the requests share: the collection in insertion order, the next \<open>_id\<close>, the files
  of the upload directory, the random generator, and how often the analyzer was started.
\<close>

record world =
  docs :: "contract_doc list"
  next_id :: nat
  files :: "string \<Rightarrow> byte list option"
  random :: rng
  analyzer_runs :: nat

record uploaded_file =
  originalname :: string
  mimetype :: string
  size_f :: int
  path :: string
  filename :: string
  buffer :: "byte list option"

record request =
  user_id :: nat
  req_file :: "uploaded_file option"

datatype response = Response (status_code: nat) (body: jsval)

text \<open>
  The analyzer is a collaborator: \<open>analyzer_result\<close> is how the promise that wraps its
  process settles, with the parsed last line of its output or with an \<open>Error\<close>.
\<close>

datatype analyzer_result = Resolved jsval | Rejected string

definition uploadsDir :: string where
  "uploadsDir = ''upload''"

definition getUploadedFilePath :: "uploaded_file option \<Rightarrow> string option" where
  "getUploadedFilePath fo =
     (case fo of
        None \<Rightarrow> None
      | Some f \<Rightarrow> Some (if path f \<noteq> [] then path f else uploadsDir @ ''/'' @ filename f))"

definition deleteFileIfExists :: "string \<Rightarrow> world \<Rightarrow> world" where
  "deleteFileIfExists p w = w\<lparr>files := (files w)(p := None)\<rparr>"

text \<open>
  The upload middleware that both routes use: \<open>multer\<close> with disk storage, a file
  filter and a size limit. A request without a file part goes on with no \<open>req.file\<close>;
  a refused part ends the request with an error before the route runs; an accepted part
  is written to the upload directory under its original name, and the \<open>req.file\<close> of
  disk storage has a \<open>path\<close> and no \<open>buffer\<close>. \<open>stamp\<close> is \<open>Date.now()\<close>
  as text.
\<close>

definition endsWith :: "string \<Rightarrow> string \<Rightarrow> bool" where
  "endsWith s suf \<longleftrightarrow> length suf \<le> length s \<and> drop (length s - length suf) s = suf"

definition allowedMimeTypes :: "string list" where
  "allowedMimeTypes =
     [''application/pdf'',
      ''application/vnd.openxmlformats-officedocument.wordprocessingml.document'',
      ''text/plain'']"

definition fileFilter :: "string \<Rightarrow> string \<Rightarrow> bool" where
  "fileFilter name type \<longleftrightarrow>
     type \<in> set allowedMimeTypes \<or> endsWith name ''.pdf'' \<or> endsWith name ''.docx'' \<or>
     endsWith name ''.txt''"

definition uploadSingleFile ::
  "(string \<times> string \<times> byte list) option \<Rightarrow> string \<Rightarrow> world
     \<Rightarrow> (error + uploaded_file option) \<times> world" where
  "uploadSingleFile part stamp w =
     (case part of
        None \<Rightarrow> (Inr None, w)
      | Some (name, type, bytes) \<Rightarrow>
          if \<not> fileFilter name type then (Inl InvalidFileType, w)
          else if length bytes > 10 * 1024 * 1024 then (Inl FileTooLarge, w)
          else
            (let safeName = (if name \<noteq> [] then name else ''upload_'' @ stamp);
                 targetPath = uploadsDir @ ''/'' @ safeName
             in (Inr (Some \<lparr>originalname = name, mimetype = type,
                              size_f = int (length bytes), path = targetPath,
                              filename = safeName, buffer = None\<rparr>),
                 w\<lparr>files := (files w)(targetPath \<mapsto> bytes)\<rparr>)))"

text \<open>The answer of the outer \<open>catch\<close> of \<open>/analyze\<close>.\<close>

definition analyze_failed :: "error \<Rightarrow> response" where
  "analyze_failed e =
     Response 500 (JObj [(''success'', JBool False),
                         (''message'', JStr ''Failed to analyze contract''),
                         (''error'', JStr (message e))])"

text \<open>
  \<open>/analyze\<close> up to its first \<open>await\<close>: an answer, or the path of the upload, its hash
  and what \<open>findOne\<close> loaded.
\<close>

definition analyze_lookup ::
  "platform \<Rightarrow> request \<Rightarrow> world \<Rightarrow> response + (string \<times> string \<times> contract_doc option)" where
  "analyze_lookup P req w =
     (case req_file req of
        None \<Rightarrow>
          Inl (Response 400 (JObj [(''success'', JBool False),
                                   (''message'', JStr ''No file uploaded'')]))
      | Some f \<Rightarrow>
          (case getUploadedFilePath (Some f) of
             None \<Rightarrow>
               Inl (Response 500 (JObj [(''success'', JBool False),
                                        (''message'', JStr ''Upload failed'')]))
           | Some uploadedFilePath \<Rightarrow>
               (case files w uploadedFilePath of
                  None \<Rightarrow> Inl (analyze_failed (NoSuchFile uploadedFilePath))
                | Some fileBuffer \<Rightarrow>
                    (case generateFileHash P (Some fileBuffer) of
                       Inl e \<Rightarrow> Inl (analyze_failed e)
                     | Inr h \<Rightarrow>
                         Inr (uploadedFilePath, h, findOne h (user_id req) (docs w))))))"

text \<open>The branch \<open>if (existingContract)\<close>, on the document that \<open>findOne\<close> loaded.\<close>

definition analyze_hit ::
  "platform \<Rightarrow> date \<Rightarrow> string \<Rightarrow> contract_doc \<Rightarrow> world \<Rightarrow> response \<times> world" where
  "analyze_hit P now uploadedFilePath existingContract w =
     (let w1 = deleteFileIfExists uploadedFilePath w in
      case incrementAccess now existingContract (docs w1) of
        Inl e \<Rightarrow> (analyze_failed e, w1)
      | Inr (d, ds) \<Rightarrow>
          (let w2 = w1\<lparr>docs := ds\<rparr> in
           case getDecryptedAnalysis P d of
             Inl e \<Rightarrow> (analyze_failed e, w2)
           | Inr decryptedAnalysis \<Rightarrow>
               (case getDecryptedContent P d of
                  Inl e \<Rightarrow> (analyze_failed e, w2)
                | Inr decryptedContent \<Rightarrow>
                    (case get_prop decryptedContent ''extractedText'' of
                       None \<Rightarrow> (analyze_failed NullProperty, w2)
                     | Some extractedText \<Rightarrow>
                         (Response 200
                            (JObj [(''success'', JBool True),
                                   (''message'',
                                    JStr ''Contract already analyzed. Returning previous analysis.''),
                                   (''isDuplicate'', JBool True),
                                   (''analysis'', decryptedAnalysis),
                                   (''extracted_text'', extractedText),
                                   (''contractId'', JInt (int (doc_id d))),
                                   (''accessCount'', JInt (accessCount d)),
                                   (''lastAnalyzed'', JDate (analysisDate d)),
                                   (''contractInfo'',
                                    JObj [(''fileName'', JStr (fileName d)),
                                          (''fileSize'', JInt (fileSize d)),
                                          (''analysisDate'', JDate (analysisDate d))])]),
                          w2)))))"

text \<open>
  The inner \<open>try\<close> block: the analyzer's result is checked, sealed and saved. The result is
  the answer, or the error that is thrown, and the state at that point.
\<close>

definition analyze_try ::
  "platform \<Rightarrow> date \<Rightarrow> analyzer_result \<Rightarrow> request \<Rightarrow> uploaded_file \<Rightarrow> string \<Rightarrow> string
     \<Rightarrow> world \<Rightarrow> (error + response) \<times> world" where
  "analyze_try P now result req f uploadedFilePath h w =
     (let w1 = w\<lparr>analyzer_runs := analyzer_runs w + 1\<rparr> in
      case result of
        Rejected m \<Rightarrow> (Inl (AnalyzerError m), w1)
      | Resolved r \<Rightarrow>
          if \<not> truthy r then (Inl InvalidAnalyzerResponse, w1)
          else
            (case get_prop r ''analysis'' of
               None \<Rightarrow> (Inl NullProperty, w1)
             | Some analysis \<Rightarrow>
                 if \<not> truthy analysis then (Inl InvalidAnalyzerResponse, w1)
                 else
                   (case get_prop r ''extracted_text'' of
                      None \<Rightarrow> (Inl NullProperty, w1)
                    | Some extracted_text \<Rightarrow>
                        (let (sig, g) =
                               createSignature P
                                 (JObj [(''fileName'', JStr (originalname f)),
                                        (''fileSize'', JInt (size_f f)),
                                        (''fileType'', JStr (mimetype f)),
                                        (''uploadDate'', JDate now),
                                        (''extractedText'', extracted_text)])
                                 analysis (user_id req) (random w1);
                             w2 = w1\<lparr>random := g\<rparr>
                         in
                         case sig of
                           Inl e \<Rightarrow> (Inl e, w2)
                         | Inr signatureData \<Rightarrow>
                             (let contractSignature =
                                    \<lparr>doc_id = next_id w2,
                                     fileHash = h,
                                     fileName = originalname f,
                                     fileSize = size_f f,
                                     fileType = mimetype f,
                                     uploadedBy = user_id req,
                                     encryptedContent = s_encryptedContent signatureData,
                                     encryptedAnalysis = s_encryptedAnalysis signatureData,
                                     encryptionKey = s_key signatureData,
                                     iv = s_iv signatureData,
                                     contentTag = s_contentTag signatureData,
                                     analysisTag = s_analysisTag signatureData,
                                     analysisDate = now,
                                     analysisVersion = ''1.0'',
                                     accessCount = 0,
                                     lastAccessed = now,
                                     status = Active,
                                     createdAt = now,
                                     updatedAt = now\<rparr>;
                                  w3 = w2\<lparr>next_id := next_id w2 + 1\<rparr>
                              in
                              case save_new contractSignature (docs w3) of
                                Inl e \<Rightarrow> (Inl e, w3)
                              | Inr ds \<Rightarrow>
                                  (Inr (Response 200
                                     (JObj [(''success'', JBool True),
                                            (''message'',
                                             JStr ''Contract analyzed and stored successfully''),
                                            (''isDuplicate'', JBool False),
                                            (''analysis'', analysis),
                                            (''extracted_text'', extracted_text),
                                            (''contractId'', JInt (int (doc_id contractSignature))),
                                            (''contractInfo'',
                                             JObj [(''fileName'', JStr (fileName contractSignature)),
                                                   (''fileSize'', JInt (fileSize contractSignature)),
                                                   (''analysisDate'',
                                                    JDate (analysisDate contractSignature))])])),
                                   deleteFileIfExists uploadedFilePath (w3\<lparr>docs := ds\<rparr>)))))))"

text \<open>
  The branch for a contract that is not stored: the \<open>try\<close> block, its
  \<open>catch (analysisError)\<close>, which answers an error that has a \<open>response\<close> of status 500
  at once and otherwise deletes the upload and throws the error on, and the outer \<open>catch\<close>.
\<close>

definition analyze_miss ::
  "platform \<Rightarrow> date \<Rightarrow> analyzer_result \<Rightarrow> request \<Rightarrow> uploaded_file \<Rightarrow> string \<Rightarrow> string
     \<Rightarrow> world \<Rightarrow> response \<times> world" where
  "analyze_miss P now result req f uploadedFilePath h w =
     (case analyze_try P now result req f uploadedFilePath h w of
        (Inr resp, w') \<Rightarrow> (resp, w')
      | (Inl analysisError, w') \<Rightarrow>
          if response_status analysisError = Some 500
          then (Response 500 (JObj [(''success'', JBool False),
                                    (''message'', JStr ''Contract analysis failed. Please try again.''),
                                    (''error'', JStr ''Analysis service error'')]), w')
          else (analyze_failed analysisError, deleteFileIfExists uploadedFilePath w'))"

text \<open>\<open>POST /analyze\<close>, run without another request in between.\<close>

definition analyze ::
  "platform \<Rightarrow> date \<Rightarrow> analyzer_result \<Rightarrow> request \<Rightarrow> world \<Rightarrow> response \<times> world" where
  "analyze P now result req w =
     (case analyze_lookup P req w of
        Inl resp \<Rightarrow> (resp, w)
      | Inr (uploadedFilePath, h, found) \<Rightarrow>
          (case found of
             Some existingContract \<Rightarrow> analyze_hit P now uploadedFilePath existingContract w
           | None \<Rightarrow>
               (case req_file req of
                  None \<Rightarrow> (analyze_failed NullProperty, w)
                | Some f \<Rightarrow> analyze_miss P now result req f uploadedFilePath h w)))"

text \<open>
  \<open>POST /analyze\<close> when the analyzer's promise may never be settled (\<open>None\<close>): the
  route sets no timeout, so it then waits at the \<open>await\<close>, and the request has no
  answer.
\<close>

definition analyze_request ::
  "platform \<Rightarrow> date \<Rightarrow> analyzer_result option \<Rightarrow> request \<Rightarrow> world
     \<Rightarrow> response option \<times> world" where
  "analyze_request P now settled req w =
     (case analyze_lookup P req w of
        Inl resp \<Rightarrow> (Some resp, w)
      | Inr (uploadedFilePath, h, found) \<Rightarrow>
          (case found of
             Some existingContract \<Rightarrow>
               (case analyze_hit P now uploadedFilePath existingContract w of
                  (resp, w') \<Rightarrow> (Some resp, w'))
           | None \<Rightarrow>
               (case settled of
                  None \<Rightarrow> (None, w\<lparr>analyzer_runs := analyzer_runs w + 1\<rparr>)
                | Some result \<Rightarrow>
                    (case analyze P now result req w of (resp, w') \<Rightarrow> (Some resp, w')))))"

text \<open>\<open>POST /check-duplicate\<close>. It hashes \<open>req.file.buffer\<close>.\<close>

definition check_duplicate_failed :: "error \<Rightarrow> response" where
  "check_duplicate_failed e =
     Response 500 (JObj [(''success'', JBool False),
                         (''message'', JStr ''Failed to check for duplicate contract''),
                         (''error'', JStr (message e))])"

definition check_duplicate :: "platform \<Rightarrow> request \<Rightarrow> world \<Rightarrow> response \<times> world" where
  "check_duplicate P req w =
     (case req_file req of
        None \<Rightarrow>
          (Response 400 (JObj [(''success'', JBool False),
                               (''message'', JStr ''No file uploaded'')]), w)
      | Some f \<Rightarrow>
          (case generateFileHash P (buffer f) of
             Inl e \<Rightarrow> (check_duplicate_failed e, w)
           | Inr h \<Rightarrow>
               (case findOne h (user_id req) (docs w) of
                  None \<Rightarrow>
                    (Response 200
                       (JObj [(''success'', JBool True),
                              (''isDuplicate'', JBool False),
                              (''message'',
                               JStr ''Contract not found in database. Analysis required.'')]), w)
                | Some existingContract \<Rightarrow>
                    (case getDecryptedAnalysis P existingContract of
                       Inl e \<Rightarrow> (check_duplicate_failed e, w)
                     | Inr analysis \<Rightarrow>
                         (case getDecryptedContent P existingContract of
                            Inl e \<Rightarrow> (check_duplicate_failed e, w)
                          | Inr content \<Rightarrow>
                              (case get_prop content ''extractedText'' of
                                 None \<Rightarrow> (check_duplicate_failed NullProperty, w)
                               | Some extractedText \<Rightarrow>
                                   (Response 200
                                      (JObj [(''success'', JBool True),
                                             (''isDuplicate'', JBool True),
                                             (''contractId'', JInt (int (doc_id existingContract))),
                                             (''analysis'', analysis),
                                             (''extracted_text'', extractedText),
                                             (''contractInfo'',
                                              JObj [(''fileName'', JStr (fileName existingContract)),
                                                    (''fileSize'', JInt (fileSize existingContract)),
                                                    (''analysisDate'',
                                                     JDate (analysisDate existingContract)),
                                                    (''accessCount'',
                                                     JInt (accessCount existingContract))])]),
                                    w)))))))"

section \<open>Notions used to state the properties\<close>

text \<open>
  The analysis step fails when the analyzer's promise is rejected, or when what it resolves
  to is refused by \<open>if (!result || !result.analysis)\<close>; \<open>failure_of\<close> is the error
  thrown then.
\<close>

fun analysis_fails :: "analyzer_result \<Rightarrow> bool" where
  "analysis_fails (Rejected m) = True"
| "analysis_fails (Resolved r) =
     (\<not> truthy r \<or> (case get_prop r ''analysis'' of None \<Rightarrow> True | Some a \<Rightarrow> \<not> truthy a))"

fun failure_of :: "analyzer_result \<Rightarrow> error" where
  "failure_of (Rejected m) = AnalyzerError m"
| "failure_of (Resolved r) = InvalidAnalyzerResponse"

text \<open>The numbers that JSON text holds: the doubles, but for \<open>- 0\<close>.\<close>

fun json_number :: "number \<Rightarrow> bool" where
  "json_number (Num q) = (to_double \<bar>q\<bar> = Num \<bar>q\<bar>)"
| "json_number x = False"

text \<open>
  JSON data: the values that JSON text can denote. No \<open>undefined\<close> and no \<open>Date\<close>
  anywhere inside, and no property name twice in one object.
\<close>

fun json_data :: "jsval \<Rightarrow> bool"
  and json_data_elems :: "jsval list \<Rightarrow> bool"
  and json_data_props :: "(string \<times> jsval) list \<Rightarrow> bool" where
  "json_data JUndefined = False"
| "json_data JNull = True"
| "json_data (JBool b) = True"
| "json_data (JNum x) = json_number x"
| "json_data (JStr s) = True"
| "json_data (JDate d) = False"
| "json_data (JArr xs) = json_data_elems xs"
| "json_data (JObj fs) = (distinct (map fst fs) \<and> json_data_props fs)"
| "json_data_elems [] = True"
| "json_data_elems (x # xs) = (json_data x \<and> json_data_elems xs)"
| "json_data_props [] = True"
| "json_data_props ((k, v) # fs) = (json_data v \<and> json_data_props fs)"

text \<open>
  What is assumed of AES-256-GCM where a property needs it: opening what was sealed, with
  the same key, iv and associated data and the tag that sealing returned, gives the
  plaintext back.
\<close>

definition gcm_correct :: "platform \<Rightarrow> bool" where
  "gcm_correct P \<longleftrightarrow>
     (\<forall>k i a p c t. gcm_seal P k i a p = Some (c, t) \<longrightarrow> gcm_open P k i a t c = Some p)"

text \<open>
  What the content payload of a record denotes once it has been sealed as JSON text: the
  \<open>uploadDate\<close> is a string, and an \<open>extractedText\<close> that was \<open>undefined\<close> is
  absent.
\<close>

definition stored_content :: "string \<Rightarrow> int \<Rightarrow> string \<Rightarrow> date \<Rightarrow> jsval \<Rightarrow> jsval" where
  "stored_content name n type t x =
     JObj ([(''fileName'', JStr name), (''fileSize'', JInt n), (''fileType'', JStr type),
            (''uploadDate'', JStr t)] @
           (if x = JUndefined then [] else [(''extractedText'', x)]))"



text \<open>
  The content payload that \<open>/analyze\<close> hands to \<open>createSignature\<close>, and what it is for a
  record \<open>d\<close> to have been sealed with the generator in state \<open>g\<close>: its key and iv are
  the next 32 and 16 bytes of the generator, and both payloads were sealed by \<open>encrypt\<close>
  under them, each with its own tag.
\<close>

abbreviation contractData :: "uploaded_file \<Rightarrow> date \<Rightarrow> jsval \<Rightarrow> jsval" where
  "contractData f now extracted_text \<equiv>
     JObj [(''fileName'', JStr (originalname f)), (''fileSize'', JInt (size_f f)),
           (''fileType'', JStr (mimetype f)), (''uploadDate'', JDate now),
           (''extractedText'', extracted_text)]"



text \<open>
  Used in the proof that JSON text is read back: the characters a value's text can begin
  with, and what can follow a value inside the text that \<open>stringify\<close> writes.
\<close>

definition value_start :: "char \<Rightarrow> bool" where
  "value_start c \<longleftrightarrow>
     c = CHR 0x7B \<or> c = CHR 0x5B \<or> c = CHR 0x22 \<or> c = CHR ''t'' \<or> c = CHR ''f'' \<or>
     c = CHR ''n'' \<or> c = CHR ''-'' \<or> is_digit c"

definition delim :: "string \<Rightarrow> bool" where
  "delim r \<longleftrightarrow> r = [] \<or> hd r = CHR '','' \<or> hd r = CHR '']'' \<or> hd r = CHR ''}''"

section \<open>A platform instance and sample data\<close>

text \<open>
  An instance of the platform on which the routes can be run: the hash is the identity,
  base64 is replaced by hex, and the cipher asks for a key of 32 bytes, shifts every byte
  by one and tags with the first 16 key bytes shifted by the length. It has the interface
  of the real primitives and none of their strength; it is used to run examples.
\<close>

definition sample_platform :: platform where
  "sample_platform =
     \<lparr>sha256 = (\<lambda>bs. bs),
      base64_encode = hex_encode,
      base64_decode = hex_decode,
      gcm_seal = (\<lambda>k i a p.
        if length k = 32
        then Some (map (\<lambda>b. b + 1) p, map (\<lambda>b. b + of_nat (length p)) (take 16 k))
        else None),
      gcm_open = (\<lambda>k i a t c.
        if length k = 32 \<and> t = map (\<lambda>b. b + of_nat (length c)) (take 16 k)
        then Some (map (\<lambda>b. b - 1) c)
        else None)\<rparr>"


definition sample_rng :: rng where
  "sample_rng = \<lparr>entropy = (\<lambda>i. of_nat i), drawn = 0\<rparr>"

definition sample_key :: string where
  "sample_key = ''000102030405060708090a0b0c0d0e0f101112131415161718191a1b1c1d1e1f''"

definition sample_iv :: string where
  "sample_iv = ''202122232425262728292a2b2c2d2e2f''"

definition sample_time :: date where
  "sample_time = ''2025-01-01T00:00:00.000Z''"

definition sample_file :: uploaded_file where
  "sample_file =
     \<lparr>originalname = ''a.txt'', mimetype = ''text/plain'', size_f = 3,
      path = ''upload/a.txt'', filename = ''a.txt'', buffer = None\<rparr>"

definition sample_request :: "nat \<Rightarrow> request" where
  "sample_request u = \<lparr>user_id = u, req_file = Some sample_file\<rparr>"

definition sample_result :: analyzer_result where
  "sample_result =
     Resolved (JObj [(''ok'', JBool True),
                     (''analysis'', JObj [(''risk'', JNum (Num 2))]),
                     (''extracted_text'', JStr [])])"

text \<open>
  The record that \<open>/analyze\<close> stores for \<open>sample_file\<close> with the bytes 1, 2, 3, uploaded
  by user 1 at \<open>sample_time\<close>, on \<open>sample_platform\<close> with \<open>sample_rng\<close>.
\<close>

definition sample_doc :: contract_doc where
  "sample_doc =
     \<lparr>doc_id = 0, fileHash = ''010203'', fileName = ''a.txt'', fileSize = 3,
      fileType = ''text/plain'', uploadedBy = 1,
      encryptedContent =
        ''7c23676a6d664f626e66233b23622f757975232d23676a6d66546a7b66233b342d23676a6d66557a7166233b237566797530716d626a6f232d2376716d70626545627566233b23333133362e31322e31325531313b31313b31312f3131315b232d2366797573626475666555667975233b23237e'',
      encryptedAnalysis = ''7c23736a746c233b337e'',
      encryptionKey = sample_key,
      iv = sample_iv,
      contentTag = ''7475767778797a7b7c7d7e7f80818283'',
      analysisTag = ''0a0b0c0d0e0f10111213141516171819'',
      analysisDate = sample_time, analysisVersion = ''1.0'',
      accessCount = 0, lastAccessed = sample_time,
      status = Active, createdAt = sample_time, updatedAt = sample_time\<rparr>"

definition sample_world :: "contract_doc list \<Rightarrow> world" where
  "sample_world ds =
     \<lparr>docs = ds, next_id = length ds, files = [''upload/a.txt'' \<mapsto> [1, 2, 3]],
      random = sample_rng, analyzer_runs = 0\<rparr>"

section \<open>Running the model on the sample data\<close>

lemma floor_rat_numeral:
  "\<lfloor>numeral a / numeral b :: rat\<rfloor> = numeral a div numeral b"
  "\<lfloor>1 / numeral b :: rat\<rfloor> = 1 div numeral b"
  using floor_divide_of_int_eq [of "numeral a" "numeral b", where ?'a = rat]
    floor_divide_of_int_eq [of 1 "numeral b", where ?'a = rat]
  by simp_all

lemma ceiling_rat_numeral:
  "\<lceil>numeral a / numeral b :: rat\<rceil> = - (- numeral a div numeral b)"
  "\<lceil>1 / numeral b :: rat\<rceil> = - (- 1 div numeral b)"
  using floor_divide_of_int_eq [of "- numeral a" "numeral b", where ?'a = rat]
    floor_divide_of_int_eq [of "- 1" "numeral b", where ?'a = rat]
  by (simp_all add: ceiling_def)

lemma replicate_numeral: "replicate (numeral k) x = x # replicate (pred_numeral k) x"
  by (simp add: numeral_eq_Suc)

lemmas number_eval =
  floor_rat_numeral ceiling_rat_numeral replicate_numeral
  floor_log_def digit_count.simps round_half_even_def to_double_def candidates_def
  digits_from.simps strip_zeros.simps format_digits_def positive_to_string_def
  show_nat.simps digit_char_def scan_fraction_def scan_exponent_def scan_unsigned_def
  scan_number_def is_digit_def read_nat_def char_of_def bit_0 Let_def

lemmas json_eval =
  JSON_parse_def JSON_stringify_def number_eval quote_def
  quote_char_def skip_ws_def is_ws_def
  hex_val_def hex_digit_def unescape_simple_def unescape_u_def utf8_of_code_def

lemmas crypto_eval =
  hex_byte_def hex_encode_def utf8_encode_def utf8_decode_def sample_platform_def
  encrypt_def decrypt_def decryptData_def AAD_def randomBytes_def generateKey_def
  generateIV_def generateFileHash_def sample_key_def sample_iv_def sample_rng_def upt_rec

lemma sample_doc_analysis:
  "getDecryptedAnalysis sample_platform sample_doc = Inr (JObj [(''risk'', JNum (Num 2))])"
  by (simp add: getDecryptedAnalysis_def sample_doc_def json_eval crypto_eval)

lemma sample_doc_content:
  "getDecryptedContent sample_platform sample_doc =
     Inr (JObj [(''fileName'', JStr ''a.txt''), (''fileSize'', JNum (Num 3)),
                (''fileType'', JStr ''text/plain''), (''uploadDate'', JStr sample_time),
                (''extractedText'', JStr [])])"
  by (simp add: getDecryptedContent_def sample_doc_def sample_time_def json_eval crypto_eval)

lemma sample_content_text:
  "get_prop (JObj [(''fileName'', JStr ''a.txt''), (''fileSize'', JNum (Num 3)),
                   (''fileType'', JStr ''text/plain''), (''uploadDate'', JStr sample_time),
                   (''extractedText'', JStr [])]) ''extractedText'' = Some (JStr [])"
  by simp

lemma sample_hash: "hex_encode (sha256 sample_platform [1, 2, 3]) = ''010203''"
  by (simp add: crypto_eval json_eval)

lemma getUploadedFilePath_sample:
  "getUploadedFilePath (Some sample_file) = Some ''upload/a.txt''"
  by (simp add: getUploadedFilePath_def sample_file_def)

lemma sample_request_props:
  "req_file (sample_request u) = Some sample_file" "user_id (sample_request u) = u"
  by (simp_all add: sample_request_def)

lemma sample_world_props:
  "docs (sample_world ds) = ds" "files (sample_world ds) ''upload/a.txt'' = Some [1, 2, 3]"
  "random (sample_world ds) = sample_rng" "analyzer_runs (sample_world ds) = 0"
  "next_id (sample_world ds) = length ds"
  by (simp_all add: sample_world_def)

lemma sample_upload:
  "uploadSingleFile (Some (''a.txt'', ''text/plain'', [1, 2, 3])) stamp (sample_world ds) =
     (Inr (Some sample_file), sample_world ds)"
  by (simp add: uploadSingleFile_def fileFilter_def allowedMimeTypes_def sample_file_def
      sample_world_def uploadsDir_def Let_def)

section \<open>The store's lookup\<close>

lemma findOne_mem: "findOne h u ds = Some d \<Longrightarrow> d \<in> set ds"
  unfolding findOne_def by (induction ds) (auto split: if_splits)

lemma findOne_props:
  "findOne h u ds = Some d \<Longrightarrow> fileHash d = h \<and> uploadedBy d = u \<and> status d = Active"
  unfolding findOne_def by (induction ds) (auto split: if_splits)

section \<open>\<open>POST /check-duplicate\<close>\<close>

text \<open>
  \<open>POST /check-duplicate\<close> changes nothing: whatever the request, the state after it is
  the state before it, so no record's \<open>accessCount\<close>, \<open>lastAccessed\<close> or other field is
  touched. For a \<open>req.file\<close> that has a buffer whose hash finds an active record of the
  uploader whose two payloads decrypt, the answer is 200 with \<open>isDuplicate = true\<close>, the
  decrypted analysis, and the \<open>extractedText\<close> of the decrypted content.
\<close>

lemma check_duplicate_reads_only:
  "snd (check_duplicate P req w) = w \<and>
   (\<forall>f fileBuffer d a c t.
      req_file req = Some f \<and> buffer f = Some fileBuffer \<and>
      findOne (hex_encode (sha256 P fileBuffer)) (user_id req) (docs w) = Some d \<and>
      getDecryptedAnalysis P d = Inr a \<and> getDecryptedContent P d = Inr c \<and>
      get_prop c ''extractedText'' = Some t \<longrightarrow>
      status_code (fst (check_duplicate P req w)) = 200 \<and>
      get_prop (body (fst (check_duplicate P req w))) ''isDuplicate'' = Some (JBool True) \<and>
      get_prop (body (fst (check_duplicate P req w))) ''analysis'' = Some a \<and>
      get_prop (body (fst (check_duplicate P req w))) ''extracted_text'' = Some t)"
  by (auto simp: check_duplicate_def generateFileHash_def split: option.splits sum.splits)

lemma check_duplicate_reads_only_sample:
  "snd (check_duplicate sample_platform
          \<lparr>user_id = 1, req_file = Some (sample_file\<lparr>buffer := Some [1, 2, 3]\<rparr>)\<rparr>
          (sample_world [sample_doc])) = sample_world [sample_doc] \<and>
   status_code (fst (check_duplicate sample_platform
          \<lparr>user_id = 1, req_file = Some (sample_file\<lparr>buffer := Some [1, 2, 3]\<rparr>)\<rparr>
          (sample_world [sample_doc]))) = 200 \<and>
   get_prop (body (fst (check_duplicate sample_platform
          \<lparr>user_id = 1, req_file = Some (sample_file\<lparr>buffer := Some [1, 2, 3]\<rparr>)\<rparr>
          (sample_world [sample_doc])))) ''analysis'' = Some (JObj [(''risk'', JNum (Num 2))])"
proof -
  let ?req = "\<lparr>user_id = 1, req_file = Some (sample_file\<lparr>buffer := Some [1, 2, 3]\<rparr>)\<rparr>"
  have f: "findOne ''010203'' 1 (docs (sample_world [sample_doc])) = Some sample_doc"
    by (simp add: findOne_def sample_world_def sample_doc_def)
  show ?thesis
    using check_duplicate_reads_only [of sample_platform ?req "sample_world [sample_doc]"]
      sample_hash f sample_content_text sample_doc_analysis sample_doc_content
    by (simp add: sample_file_def)
qed

text \<open>
  A \<open>req.file\<close> without a buffer: the hash of \<open>undefined\<close> throws, and the route
  answers 500, having looked nothing up.
\<close>

lemma check_duplicate_disk_storage:
  "req_file req = Some f \<Longrightarrow> buffer f = None \<Longrightarrow>
   check_duplicate P req w = (check_duplicate_failed InvalidArgType, w)"
  by (simp add: check_duplicate_def generateFileHash_def)

lemma uploadSingleFile_disk:
  assumes "uploadSingleFile part stamp w = (Inr (Some f), w1)"
  shows "buffer f = None \<and> path f \<noteq> [] \<and> files w1 (path f) \<noteq> None \<and> docs w1 = docs w"
  using assms
  by (auto simp: uploadSingleFile_def Let_def uploadsDir_def split: option.splits if_splits)

text \<open>
  C10. What the route does with an upload: the upload middleware of the route is the shared
  one, which stores the file on disk, and the \<open>req.file\<close> of a file stored on disk has no
  buffer. So for every upload that the middleware accepted, whatever is stored, the route
  answers 500 \<open>Failed to check for duplicate contract\<close> and returns no analysis and no
  content. The state is unchanged, as the claim says.
\<close>

theorem check_duplicate_after_upload:
  assumes "uploadSingleFile part stamp w = (Inr (Some f), w1)"
  shows "check_duplicate P \<lparr>user_id = u, req_file = Some f\<rparr> w1 =
           (Response 500 (JObj [(''success'', JBool False),
                                (''message'', JStr ''Failed to check for duplicate contract''),
                                (''error'', JStr (message InvalidArgType))]), w1)"
  using uploadSingleFile_disk [OF assms]
  by (simp add: check_duplicate_def generateFileHash_def check_duplicate_failed_def)

theorem check_duplicate_after_upload_witness:
  "findOne ''010203'' 1 (docs (sample_world [sample_doc])) = Some sample_doc \<and>
   check_duplicate sample_platform (sample_request 1) (sample_world [sample_doc]) =
     (Response 500 (JObj [(''success'', JBool False),
                          (''message'', JStr ''Failed to check for duplicate contract''),
                          (''error'', JStr (message InvalidArgType))]),
      sample_world [sample_doc])"
proof -
  have f: "findOne ''010203'' 1 (docs (sample_world [sample_doc])) = Some sample_doc"
    by (simp add: findOne_def sample_world_def sample_doc_def)
  show ?thesis
    using check_duplicate_after_upload [OF sample_upload, of sample_platform 1] f
    by (simp add: sample_request_def)
qed

section \<open>\<open>POST /analyze\<close>: a failed analysis\<close>

lemma truthy_get_prop: "truthy r \<Longrightarrow> get_prop r k \<noteq> None"
  by (cases r) (auto split: option.splits)

lemma analyze_try_fails:
  "analysis_fails result \<Longrightarrow>
   analyze_try P now result req f p h w =
     (Inl (failure_of result), w\<lparr>analyzer_runs := analyzer_runs w + 1\<rparr>)"
proof (cases result)
  case (Rejected m)
  then show ?thesis by (simp add: analyze_try_def)
next
  case (Resolved r)
  assume fails: "analysis_fails result"
  show ?thesis
  proof (cases "truthy r")
    case False
    with Resolved show ?thesis by (simp add: analyze_try_def)
  next
    case True
    then obtain a where a: "get_prop r ''analysis'' = Some a"
      using truthy_get_prop [of r "''analysis''"] by auto
    with fails Resolved True have "\<not> truthy a" by simp
    with Resolved True a show ?thesis by (simp add: analyze_try_def)
  qed
qed

lemma analyze_lookup_staged:
  "req_file req = Some f \<Longrightarrow> getUploadedFilePath (Some f) = Some p \<Longrightarrow>
   files w p = Some fileBuffer \<Longrightarrow>
   analyze_lookup P req w =
     Inr (p, hex_encode (sha256 P fileBuffer),
          findOne (hex_encode (sha256 P fileBuffer)) (user_id req) (docs w))"
  by (simp add: analyze_lookup_def generateFileHash_def)

text \<open>
  C8, as amended. An upload that is staged on disk and not yet stored for its uploader, and
  whose analysis step fails (the analyzer's promise is rejected, or its result has no analysis):
  the route answers 500 \<open>Failed to analyze contract\<close> with the error's message, the
  collection is what it was (no record is created), and the uploaded file is deleted.
  Nothing else changes but the count of analyzer runs, so the upload can be sent again.
\<close>

theorem analysis_failure_cleans_up:
  assumes "req_file req = Some f"
    and "getUploadedFilePath (Some f) = Some p"
    and "files w p = Some fileBuffer"
    and "findOne (hex_encode (sha256 P fileBuffer)) (user_id req) (docs w) = None"
    and "analysis_fails result"
  shows "analyze P now result req w =
           (analyze_failed (failure_of result),
            w\<lparr>analyzer_runs := analyzer_runs w + 1, files := (files w)(p := None)\<rparr>) \<and>
         status_code (fst (analyze P now result req w)) = 500 \<and>
         docs (snd (analyze P now result req w)) = docs w \<and>
         files (snd (analyze P now result req w)) p = None"
  using assms
  by (simp add: analyze_def analyze_lookup_staged analyze_miss_def analyze_try_fails
      deleteFileIfExists_def analyze_failed_def)

theorem analysis_failure_cleans_up_witness:
  "analyze sample_platform sample_time (Rejected ''analyzer crashed'') (sample_request 1)
     (sample_world []) =
     (analyze_failed (AnalyzerError ''analyzer crashed''),
      (sample_world [])\<lparr>analyzer_runs := 1, files := (files (sample_world []))(''upload/a.txt'' := None)\<rparr>) \<and>
   docs (snd (analyze sample_platform sample_time (Rejected ''analyzer crashed'')
     (sample_request 1) (sample_world []))) = [] \<and>
   files (snd (analyze sample_platform sample_time (Rejected ''analyzer crashed'')
     (sample_request 1) (sample_world []))) ''upload/a.txt'' = None"
  using analysis_failure_cleans_up [of "sample_request 1" sample_file "''upload/a.txt''"
      "sample_world []" "[1, 2, 3]" sample_platform "Rejected ''analyzer crashed''" sample_time]
    getUploadedFilePath_sample
  by (simp add: sample_request_def sample_world_def findOne_def)

text \<open>
  The claim as stated fails for a timeout: the route sets none. While the analyzer's promise
  is not settled the request has no answer, and the uploaded file stays where it is.
\<close>

theorem analyzer_never_settles_counterexample:
  "fst (analyze_request sample_platform sample_time None (sample_request 1) (sample_world []))
     = None \<and>
   files (snd (analyze_request sample_platform sample_time None (sample_request 1)
     (sample_world []))) ''upload/a.txt'' = Some [1, 2, 3]"
  by (simp add: analyze_request_def analyze_lookup_staged [OF sample_request_props(1)
        getUploadedFilePath_sample sample_world_props(2)]
      sample_world_props sample_request_props findOne_def)

lemma analyze_request_settled:
  "analyze_request P now (Some result) req w =
     (Some (fst (analyze P now result req w)), snd (analyze P now result req w))"
  by (auto simp: analyze_request_def analyze_def split: sum.splits option.splits prod.splits)

section \<open>\<open>POST /analyze\<close>: the contract is already stored\<close>

lemma incrementAccess_found:
  "d \<in> set ds \<Longrightarrow>
   incrementAccess now d ds =
     Inr (d\<lparr>accessCount := accessCount d + 1, lastAccessed := now, updatedAt := now\<rparr>,
          map (\<lambda>x. if doc_id x = doc_id d
                    then x\<lparr>accessCount := accessCount d + 1, lastAccessed := now,
                            updatedAt := now\<rparr>
                    else x) ds)"
proof -
  assume "d \<in> set ds"
  then have "\<exists>x\<in>set ds. doc_id x = doc_id d" by blast
  then show ?thesis by (simp add: incrementAccess_def save_modified_def Let_def)
qed

lemma getDecryptedAnalysis_opens:
  assumes "even (length (encryptedAnalysis d))"
    and "gcm_open P (base64_decode P (encryptionKey d)) (base64_decode P (iv d)) AAD
           (hex_decode (analysisTag d)) (hex_decode (encryptedAnalysis d)) = Some pa"
    and "JSON_parse (utf8_decode pa) = Some a"
  shows "getDecryptedAnalysis P d = Inr a"
  using assms by (simp add: getDecryptedAnalysis_def decryptData_def)

lemma getDecryptedContent_opens:
  assumes "even (length (encryptedContent d))"
    and "gcm_open P (base64_decode P (encryptionKey d)) (base64_decode P (iv d)) AAD
           (hex_decode (contentTag d)) (hex_decode (encryptedContent d)) = Some pc"
    and "JSON_parse (utf8_decode pc) = Some c"
  shows "getDecryptedContent P d = Inr c"
  using assms by (simp add: getDecryptedContent_def decryptData_def)

text \<open>
  C6, as amended. An upload that is staged on disk and for which \<open>findOne\<close> finds an
  active record \<open>d\<close> of the uploader whose two payloads decrypt: the cipher opens the
  stored ciphertexts under the stored key, iv and tags, the plaintexts are the JSON
  texts of \<open>a\<close> and \<open>c\<close>, and \<open>c\<close> is not \<open>null\<close>. Then the route answers 200 with \<open>isDuplicate = true\<close>, the
  analysis \<open>a\<close>, the \<open>extractedText\<close> of the content \<open>c\<close> and the new
  \<open>accessCount\<close>; the stored record has its \<open>accessCount\<close> one higher and its
  \<open>lastAccessed\<close> set to the time of the request, every record with another \<open>_id\<close> is
  as before, the analyzer is not started, and the uploaded file is deleted.
\<close>

theorem cache_hit:
  assumes "req_file req = Some f"
    and "getUploadedFilePath (Some f) = Some p"
    and "files w p = Some fileBuffer"
    and "findOne (hex_encode (sha256 P fileBuffer)) (user_id req) (docs w) = Some d"
    and "even (length (encryptedAnalysis d))"
    and "gcm_open P (base64_decode P (encryptionKey d)) (base64_decode P (iv d)) AAD
           (hex_decode (analysisTag d)) (hex_decode (encryptedAnalysis d)) = Some pa"
    and "JSON_parse (utf8_decode pa) = Some a"
    and "even (length (encryptedContent d))"
    and "gcm_open P (base64_decode P (encryptionKey d)) (base64_decode P (iv d)) AAD
           (hex_decode (contentTag d)) (hex_decode (encryptedContent d)) = Some pc"
    and "JSON_parse (utf8_decode pc) = Some c"
    and "get_prop c ''extractedText'' = Some t"
  shows "status_code (fst (analyze P now result req w)) = 200 \<and>
         get_prop (body (fst (analyze P now result req w))) ''isDuplicate'' = Some (JBool True) \<and>
         get_prop (body (fst (analyze P now result req w))) ''analysis'' = Some a \<and>
         get_prop (body (fst (analyze P now result req w))) ''extracted_text'' = Some t \<and>
         get_prop (body (fst (analyze P now result req w))) ''accessCount'' =
           Some (JInt (accessCount d + 1)) \<and>
         docs (snd (analyze P now result req w)) =
           map (\<lambda>x. if doc_id x = doc_id d
                     then x\<lparr>accessCount := accessCount d + 1, lastAccessed := now,
                             updatedAt := now\<rparr>
                     else x) (docs w) \<and>
         d\<lparr>accessCount := accessCount d + 1, lastAccessed := now, updatedAt := now\<rparr>
           \<in> set (docs (snd (analyze P now result req w))) \<and>
         analyzer_runs (snd (analyze P now result req w)) = analyzer_runs w \<and>
         files (snd (analyze P now result req w)) p = None"
proof -
  let ?d = "d\<lparr>accessCount := accessCount d + 1, lastAccessed := now, updatedAt := now\<rparr>"
  have mem: "d \<in> set (docs w)"
    using assms(4) by (rule findOne_mem)
  have da: "getDecryptedAnalysis P ?d = Inr a"
    using assms(5-7) by (intro getDecryptedAnalysis_opens [where pa = pa]) simp_all
  have dc: "getDecryptedContent P ?d = Inr c"
    using assms(8-10) by (intro getDecryptedContent_opens [where pc = pc]) simp_all
  have run: "analyze P now result req w = analyze_hit P now p d w"
    using assms(1-4) by (simp add: analyze_def analyze_lookup_staged)
  have hit: "analyze_hit P now p d w =
     (Response 200
        (JObj [(''success'', JBool True),
               (''message'', JStr ''Contract already analyzed. Returning previous analysis.''),
               (''isDuplicate'', JBool True),
               (''analysis'', a),
               (''extracted_text'', t),
               (''contractId'', JInt (int (doc_id d))),
               (''accessCount'', JInt (accessCount d + 1)),
               (''lastAnalyzed'', JDate (analysisDate d)),
               (''contractInfo'',
                JObj [(''fileName'', JStr (fileName d)),
                      (''fileSize'', JInt (fileSize d)),
                      (''analysisDate'', JDate (analysisDate d))])]),
      w\<lparr>files := (files w)(p := None),
         docs := map (\<lambda>x. if doc_id x = doc_id d
                     then x\<lparr>accessCount := accessCount d + 1, lastAccessed := now,
                             updatedAt := now\<rparr>
                     else x) (docs w)\<rparr>)"
    using mem da dc assms(11)
    by (simp add: analyze_hit_def deleteFileIfExists_def incrementAccess_found)
  have img: "?d \<in> set (map (\<lambda>x. if doc_id x = doc_id d
                     then x\<lparr>accessCount := accessCount d + 1, lastAccessed := now,
                             updatedAt := now\<rparr>
                     else x) (docs w))"
    using mem by force
  show ?thesis
    unfolding run hit using img by simp
qed

lemma sample_doc_opens:
  "even (length (encryptedAnalysis sample_doc))"
  "\<exists>pa. gcm_open sample_platform (base64_decode sample_platform (encryptionKey sample_doc))
          (base64_decode sample_platform (iv sample_doc)) AAD
          (hex_decode (analysisTag sample_doc)) (hex_decode (encryptedAnalysis sample_doc)) = Some pa \<and>
        JSON_parse (utf8_decode pa) = Some (JObj [(''risk'', JNum (Num 2))])"
  "even (length (encryptedContent sample_doc))"
  "\<exists>pc. gcm_open sample_platform (base64_decode sample_platform (encryptionKey sample_doc))
          (base64_decode sample_platform (iv sample_doc)) AAD
          (hex_decode (contentTag sample_doc)) (hex_decode (encryptedContent sample_doc)) = Some pc \<and>
        JSON_parse (utf8_decode pc) =
          Some (JObj [(''fileName'', JStr ''a.txt''), (''fileSize'', JNum (Num 3)),
                (''fileType'', JStr ''text/plain''), (''uploadDate'', JStr sample_time),
                (''extractedText'', JStr [])])"
  by (simp_all add: sample_doc_def sample_time_def json_eval crypto_eval)

theorem cache_hit_witness:
  "status_code (fst (analyze sample_platform ''2025-02-02T00:00:00.000Z'' sample_result
      (sample_request 1) (sample_world [sample_doc]))) = 200 \<and>
   get_prop (body (fst (analyze sample_platform ''2025-02-02T00:00:00.000Z'' sample_result
      (sample_request 1) (sample_world [sample_doc])))) ''isDuplicate'' = Some (JBool True) \<and>
   get_prop (body (fst (analyze sample_platform ''2025-02-02T00:00:00.000Z'' sample_result
      (sample_request 1) (sample_world [sample_doc])))) ''analysis'' =
     Some (JObj [(''risk'', JNum (Num 2))]) \<and>
   get_prop (body (fst (analyze sample_platform ''2025-02-02T00:00:00.000Z'' sample_result
      (sample_request 1) (sample_world [sample_doc])))) ''extracted_text'' = Some (JStr []) \<and>
   get_prop (body (fst (analyze sample_platform ''2025-02-02T00:00:00.000Z'' sample_result
      (sample_request 1) (sample_world [sample_doc])))) ''accessCount'' = Some (JNum (Num 1)) \<and>
   map accessCount (docs (snd (analyze sample_platform ''2025-02-02T00:00:00.000Z'' sample_result
      (sample_request 1) (sample_world [sample_doc])))) = [1] \<and>
   analyzer_runs (snd (analyze sample_platform ''2025-02-02T00:00:00.000Z'' sample_result
      (sample_request 1) (sample_world [sample_doc]))) = 0"
proof -
  have f: "findOne ''010203'' 1 (docs (sample_world [sample_doc])) = Some sample_doc"
    by (simp add: findOne_def sample_world_def sample_doc_def)
  obtain pa where pa: "gcm_open sample_platform
        (base64_decode sample_platform (encryptionKey sample_doc))
        (base64_decode sample_platform (iv sample_doc)) AAD
        (hex_decode (analysisTag sample_doc)) (hex_decode (encryptedAnalysis sample_doc)) = Some pa"
      "JSON_parse (utf8_decode pa) = Some (JObj [(''risk'', JNum (Num 2))])"
    using sample_doc_opens(2) by blast
  obtain pc where pc: "gcm_open sample_platform
        (base64_decode sample_platform (encryptionKey sample_doc))
        (base64_decode sample_platform (iv sample_doc)) AAD
        (hex_decode (contentTag sample_doc)) (hex_decode (encryptedContent sample_doc)) = Some pc"
      "JSON_parse (utf8_decode pc) =
          Some (JObj [(''fileName'', JStr ''a.txt''), (''fileSize'', JNum (Num 3)),
                (''fileType'', JStr ''text/plain''), (''uploadDate'', JStr sample_time),
                (''extractedText'', JStr [])])"
    using sample_doc_opens(4) by blast
  have ac: "accessCount sample_doc = 0" "doc_id sample_doc = 0"
    by (simp_all add: sample_doc_def)
  have fw: "findOne (hex_encode (sha256 sample_platform [1, 2, 3])) (user_id (sample_request 1))
      (docs (sample_world [sample_doc])) = Some sample_doc"
    using f by (simp add: sample_hash sample_request_props)
  show ?thesis
    using cache_hit [OF sample_request_props(1) getUploadedFilePath_sample
        sample_world_props(2) fw sample_doc_opens(1) pa sample_doc_opens(3) pc
        sample_content_text, of "''2025-02-02T00:00:00.000Z''" sample_result]
      ac
    by (simp add: sample_world_props)
qed

text \<open>
  The claim as stated fails for an active record that does not decrypt: here the stored
  analysis tag is not the one that sealing gave. The count is incremented and saved, and
  then the answer is 500, without \<open>isDuplicate\<close> and without an analysis.
\<close>

theorem undecryptable_record_counterexample:
  "findOne ''010203'' 1
     [sample_doc\<lparr>analysisTag := ''00000000000000000000000000000000''\<rparr>] =
     Some (sample_doc\<lparr>analysisTag := ''00000000000000000000000000000000''\<rparr>) \<and>
   status_code (fst (analyze sample_platform ''2025-02-02T00:00:00.000Z'' sample_result
      (sample_request 1)
      (sample_world [sample_doc\<lparr>analysisTag := ''00000000000000000000000000000000''\<rparr>]))) = 500 \<and>
   get_prop (body (fst (analyze sample_platform ''2025-02-02T00:00:00.000Z'' sample_result
      (sample_request 1)
      (sample_world [sample_doc\<lparr>analysisTag := ''00000000000000000000000000000000''\<rparr>]))))
      ''isDuplicate'' = Some JUndefined \<and>
   get_prop (body (fst (analyze sample_platform ''2025-02-02T00:00:00.000Z'' sample_result
      (sample_request 1)
      (sample_world [sample_doc\<lparr>analysisTag := ''00000000000000000000000000000000''\<rparr>]))))
      ''analysis'' = Some JUndefined \<and>
   map accessCount (docs (snd (analyze sample_platform ''2025-02-02T00:00:00.000Z'' sample_result
      (sample_request 1)
      (sample_world [sample_doc\<lparr>analysisTag := ''00000000000000000000000000000000''\<rparr>])))) = [1]"
proof -
  let ?bad = "sample_doc\<lparr>analysisTag := ''00000000000000000000000000000000''\<rparr>"
  have f: "findOne (hex_encode (sha256 sample_platform [1, 2, 3])) (user_id (sample_request 1))
      (docs (sample_world [?bad])) = Some ?bad"
    by (simp add: findOne_def sample_world_def sample_doc_def sample_hash sample_request_props)
  have run: "analyze sample_platform ''2025-02-02T00:00:00.000Z'' sample_result
      (sample_request 1) (sample_world [?bad]) =
      analyze_hit sample_platform ''2025-02-02T00:00:00.000Z'' ''upload/a.txt'' ?bad
        (sample_world [?bad])"
    using f by (simp add: analyze_def analyze_lookup_staged [OF sample_request_props(1)
          getUploadedFilePath_sample sample_world_props(2)])
  have bad: "getDecryptedAnalysis sample_platform
      (?bad\<lparr>accessCount := 1, lastAccessed := ''2025-02-02T00:00:00.000Z'',
             updatedAt := ''2025-02-02T00:00:00.000Z''\<rparr>) = Inl AnalysisDecryptFailed"
    by (simp add: getDecryptedAnalysis_def sample_doc_def json_eval crypto_eval)
  have inc: "incrementAccess ''2025-02-02T00:00:00.000Z'' ?bad [?bad] =
      Inr (?bad\<lparr>accessCount := 1, lastAccessed := ''2025-02-02T00:00:00.000Z'',
                 updatedAt := ''2025-02-02T00:00:00.000Z''\<rparr>,
           [?bad\<lparr>accessCount := 1, lastAccessed := ''2025-02-02T00:00:00.000Z'',
                 updatedAt := ''2025-02-02T00:00:00.000Z''\<rparr>])"
    by (simp add: incrementAccess_def save_modified_def Let_def sample_doc_def)
  have hit: "analyze_hit sample_platform ''2025-02-02T00:00:00.000Z'' ''upload/a.txt'' ?bad
        (sample_world [?bad]) =
      (analyze_failed AnalysisDecryptFailed,
       (sample_world [?bad])\<lparr>files := (files (sample_world [?bad]))(''upload/a.txt'' := None),
          docs := [?bad\<lparr>accessCount := 1, lastAccessed := ''2025-02-02T00:00:00.000Z'',
                 updatedAt := ''2025-02-02T00:00:00.000Z''\<rparr>]\<rparr>)"
    using inc bad
    by (simp add: analyze_hit_def deleteFileIfExists_def sample_world_props Let_def)
  have f0: "findOne ''010203'' 1 [?bad] = Some ?bad"
    by (simp add: findOne_def sample_doc_def)
  show ?thesis
    unfolding run hit using f0 by (simp add: analyze_failed_def)
qed

section \<open>\<open>POST /analyze\<close>: the contract is not stored yet\<close>

lemma save_new_Inr:
  "save_new d ds = Inr ds' \<Longrightarrow> ds' = ds @ [d] \<and> (\<forall>x \<in> set ds. fileHash x \<noteq> fileHash d)"
  by (auto simp: save_new_def split: option.splits if_splits)

lemma save_new_conflict:
  "x \<in> set ds \<Longrightarrow> fileHash x = fileHash d \<Longrightarrow> validate d = None \<Longrightarrow>
   save_new d ds = Inl (DuplicateKey ''fileHash_1'')"
  by (auto simp: save_new_def)

lemma createSignature_rng:
  "createSignature P c a u g = (r, g') \<Longrightarrow>
   entropy g' = entropy g \<and> drawn g' = drawn g + 48"
  by (auto simp: createSignature_def generateKey_def generateIV_def randomBytes_def Let_def
      split: sum.splits prod.splits)

lemma createSignature_Inr:
  assumes "createSignature P c a u g = (Inr s, g')"
  shows "s_key s = base64_encode P (map (entropy g) [drawn g ..< drawn g + 32]) \<and>
         s_iv s = base64_encode P (map (entropy g) [drawn g + 32 ..< drawn g + 48]) \<and>
         encrypt P c (s_key s) (s_iv s) = Inr (s_encryptedContent s, s_contentTag s) \<and>
         encrypt P a (s_key s) (s_iv s) = Inr (s_encryptedAnalysis s, s_analysisTag s)"
  using assms
  by (auto simp: createSignature_def generateKey_def generateIV_def randomBytes_def Let_def
      add.assoc split: sum.splits prod.splits)

text \<open>How the \<open>try\<close> block ends: with an error and the collection as it was, or with a new record.\<close>

lemma analyze_try_Inl:
  assumes "analyze_try P now result req f p h w = (Inl e, w')"
  shows "docs w' = docs w \<and> files w' = files w \<and> analyzer_runs w' = analyzer_runs w + 1"
  using assms
  by (auto simp: analyze_try_def Let_def
      split: analyzer_result.splits option.splits if_splits sum.splits prod.splits)

lemma analyze_try_Inr:
  assumes "analyze_try P now result req f p h w = (Inr resp, w')"
  shows "\<exists>r analysis extracted_text s g.
           result = Resolved r \<and> get_prop r ''analysis'' = Some analysis \<and>
           get_prop r ''extracted_text'' = Some extracted_text \<and>
           createSignature P
             (JObj [(''fileName'', JStr (originalname f)), (''fileSize'', JInt (size_f f)),
                    (''fileType'', JStr (mimetype f)), (''uploadDate'', JDate now),
                    (''extractedText'', extracted_text)])
             analysis (user_id req) (random w) = (Inr s, g) \<and>
           random w' = g \<and>
           docs w' = docs w @
             [\<lparr>doc_id = next_id w, fileHash = h, fileName = originalname f,
               fileSize = size_f f, fileType = mimetype f, uploadedBy = user_id req,
               encryptedContent = s_encryptedContent s,
               encryptedAnalysis = s_encryptedAnalysis s,
               encryptionKey = s_key s, iv = s_iv s,
               contentTag = s_contentTag s, analysisTag = s_analysisTag s,
               analysisDate = now, analysisVersion = ''1.0'', accessCount = 0,
               lastAccessed = now, status = Active, createdAt = now, updatedAt = now\<rparr>] \<and>
           (\<forall>x \<in> set (docs w). fileHash x \<noteq> h)"
  using assms
  by (auto simp: analyze_try_def Let_def deleteFileIfExists_def
      split: analyzer_result.splits option.splits if_splits sum.splits prod.splits
      dest!: save_new_Inr)

lemma sample_signature:
  "createSignature sample_platform
     (JObj [(''fileName'', JStr ''a.txt''), (''fileSize'', JNum (Num 3)),
            (''fileType'', JStr ''text/plain''), (''uploadDate'', JDate sample_time),
            (''extractedText'', JStr [])])
     (JObj [(''risk'', JNum (Num 2))]) u sample_rng =
   (Inr \<lparr>s_key = sample_key, s_iv = sample_iv,
         s_encryptedContent = encryptedContent sample_doc,
         s_contentTag = contentTag sample_doc,
         s_encryptedAnalysis = encryptedAnalysis sample_doc,
         s_analysisTag = analysisTag sample_doc\<rparr>,
    sample_rng\<lparr>drawn := 48\<rparr>)"
  by (simp add: createSignature_def sample_doc_def sample_time_def json_eval crypto_eval)

lemma sample_try_conflict:
  "analyze_try sample_platform sample_time sample_result (sample_request u) sample_file
     ''upload/a.txt'' ''010203'' (sample_world [sample_doc]) =
   (Inl (DuplicateKey ''fileHash_1''),
    (sample_world [sample_doc])\<lparr>analyzer_runs := 1, random := sample_rng\<lparr>drawn := 48\<rparr>,
       next_id := 2\<rparr>)"
  by (simp add: analyze_try_def sample_result_def sample_request_def sample_file_def
      sample_world_def sample_signature [unfolded sample_time_def] sample_time_def
      save_new_def validate_def sample_doc_def sample_key_def sample_iv_def)


section \<open>A second record with a stored \<open>fileHash\<close>\<close>

text \<open>
  The unique index is on \<open>fileHash\<close> alone. When some record with the upload's hash is
  stored, of whatever uploader and status, and the lookup finds no active record of this
  uploader, the analyzer runs and the save is then refused: the answer is the outer
  \<open>catch\<close>'s, and the collection is what it was.
\<close>

lemma analyze_miss_conflict:
  assumes "x \<in> set (docs w)" and "fileHash x = h"
  shows "\<exists>e w'. analyze_miss P now result req f p h w = (analyze_failed e, w') \<and>
           docs w' = docs w \<and> files w' p = None \<and>
           analyzer_runs w' = analyzer_runs w + 1"
proof (cases "analyze_try P now result req f p h w")
  case (Pair r w1)
  show ?thesis
  proof (cases r)
    case (Inl e)
    with Pair have "docs w1 = docs w \<and> files w1 = files w \<and>
        analyzer_runs w1 = analyzer_runs w + 1"
      using analyze_try_Inl by blast
    with Pair Inl have "analyze_miss P now result req f p h w =
        (analyze_failed e, deleteFileIfExists p w1)"
      by (simp add: analyze_miss_def)
    moreover have "docs (deleteFileIfExists p w1) = docs w \<and>
        files (deleteFileIfExists p w1) p = None \<and>
        analyzer_runs (deleteFileIfExists p w1) = analyzer_runs w + 1"
      using \<open>docs w1 = docs w \<and> files w1 = files w \<and>
        analyzer_runs w1 = analyzer_runs w + 1\<close>
      by (simp add: deleteFileIfExists_def)
    ultimately show ?thesis by blast
  next
    case (Inr resp)
    with Pair have "\<forall>y \<in> set (docs w). fileHash y \<noteq> h"
      using analyze_try_Inr [of P now result req f p h w resp w1] by blast
    with assms show ?thesis by blast
  qed
qed

lemma analyze_conflict:
  assumes "req_file req = Some f"
    and "getUploadedFilePath (Some f) = Some p"
    and "files w p = Some fileBuffer"
    and "findOne (hex_encode (sha256 P fileBuffer)) (user_id req) (docs w) = None"
    and "x \<in> set (docs w)"
    and "fileHash x = hex_encode (sha256 P fileBuffer)"
  shows "\<exists>e w'. analyze P now result req w = (analyze_failed e, w') \<and>
           docs w' = docs w \<and> files w' p = None \<and>
           analyzer_runs w' = analyzer_runs w + 1"
  using assms analyze_miss_conflict [of x w "hex_encode (sha256 P fileBuffer)" P now result req f p]
  by (simp add: analyze_def analyze_lookup_staged)

lemma status_code_analyze_failed [simp]: "status_code (analyze_failed e) = 500"
  by (simp add: analyze_failed_def)

lemma body_analyze_failed:
  "get_prop (body (analyze_failed e)) ''success'' = Some (JBool False) \<and>
   get_prop (body (analyze_failed e)) ''isDuplicate'' = Some JUndefined \<and>
   get_prop (body (analyze_failed e)) ''message'' = Some (JStr ''Failed to analyze contract'')"
  by (simp add: analyze_failed_def)

text \<open>
  C1. What the route does for a second uploader: uploader A has an active record \<open>d\<close>
  for the bytes, and B, who has none, uploads the same bytes. The lookup misses and the
  analyzer runs, as the claim says; but the answer is 500 without \<open>isDuplicate\<close>, and
  no second record is created: the collection is what it was. The claim's independent
  record for \<open>(fileHash, B)\<close> is refused by the unique index on \<open>fileHash\<close>.
\<close>

theorem second_uploader_rejected:
  assumes "req_file req = Some f"
    and "getUploadedFilePath (Some f) = Some p"
    and "files w p = Some fileBuffer"
    and "d \<in> set (docs w)"
    and "fileHash d = hex_encode (sha256 P fileBuffer)"
    and "status d = Active"
    and "uploadedBy d \<noteq> user_id req"
    and "findOne (hex_encode (sha256 P fileBuffer)) (user_id req) (docs w) = None"
  shows "status_code (fst (analyze P now result req w)) = 500 \<and>
         get_prop (body (fst (analyze P now result req w))) ''success'' = Some (JBool False) \<and>
         get_prop (body (fst (analyze P now result req w))) ''isDuplicate'' = Some JUndefined \<and>
         docs (snd (analyze P now result req w)) = docs w \<and>
         analyzer_runs (snd (analyze P now result req w)) = analyzer_runs w + 1"
proof -
  obtain e w' where "analyze P now result req w = (analyze_failed e, w')"
    and "docs w' = docs w" and "analyzer_runs w' = analyzer_runs w + 1"
    using analyze_conflict [OF assms(1-3) assms(8) assms(4) assms(5)] by blast
  then show ?thesis by (simp add: body_analyze_failed)
qed

theorem second_uploader_rejected_witness:
  "status_code (fst (analyze sample_platform sample_time sample_result (sample_request 2)
      (sample_world [sample_doc]))) = 500 \<and>
   get_prop (body (fst (analyze sample_platform sample_time sample_result (sample_request 2)
      (sample_world [sample_doc])))) ''isDuplicate'' = Some JUndefined \<and>
   docs (snd (analyze sample_platform sample_time sample_result (sample_request 2)
      (sample_world [sample_doc]))) = [sample_doc] \<and>
   analyzer_runs (snd (analyze sample_platform sample_time sample_result (sample_request 2)
      (sample_world [sample_doc]))) = 1"
proof -
  have d: "sample_doc \<in> set (docs (sample_world [sample_doc]))"
    "fileHash sample_doc = hex_encode (sha256 sample_platform [1, 2, 3])"
    "status sample_doc = Active" "uploadedBy sample_doc \<noteq> user_id (sample_request 2)"
    by (simp_all add: sample_world_props sample_request_props sample_hash, simp_all add: sample_doc_def)
  have n: "findOne (hex_encode (sha256 sample_platform [1, 2, 3])) (user_id (sample_request 2))
      (docs (sample_world [sample_doc])) = None"
    by (simp add: sample_hash sample_world_props sample_request_props findOne_def sample_doc_def)
  show ?thesis
    using second_uploader_rejected [OF sample_request_props(1) getUploadedFilePath_sample
        sample_world_props(2) d n, of sample_time sample_result]
    by (simp add: sample_world_props)
qed

text \<open>
  C2. What the route does after a soft delete: the uploader's record \<open>d\<close> for the bytes
  is archived or deleted and the uploader has no active one. The lookup misses, so the old
  record is not reused, as the claim says; but the answer is 500 without \<open>isDuplicate\<close>
  and no new active record is created: the soft-deleted record still holds the
  \<open>fileHash\<close> in the unique index.
\<close>

theorem archived_reupload_rejected:
  assumes "req_file req = Some f"
    and "getUploadedFilePath (Some f) = Some p"
    and "files w p = Some fileBuffer"
    and "d \<in> set (docs w)"
    and "fileHash d = hex_encode (sha256 P fileBuffer)"
    and "uploadedBy d = user_id req"
    and "status d = Archived \<or> status d = Deleted"
    and "findOne (hex_encode (sha256 P fileBuffer)) (user_id req) (docs w) = None"
  shows "status_code (fst (analyze P now result req w)) = 500 \<and>
         get_prop (body (fst (analyze P now result req w))) ''success'' = Some (JBool False) \<and>
         get_prop (body (fst (analyze P now result req w))) ''isDuplicate'' = Some JUndefined \<and>
         docs (snd (analyze P now result req w)) = docs w"
proof -
  obtain e w' where "analyze P now result req w = (analyze_failed e, w')"
    and "docs w' = docs w"
    using analyze_conflict [OF assms(1-3) assms(8) assms(4) assms(5)] by blast
  then show ?thesis by (simp add: body_analyze_failed)
qed

theorem archived_reupload_rejected_witness:
  "status_code (fst (analyze sample_platform sample_time sample_result (sample_request 1)
      (sample_world [sample_doc\<lparr>status := Archived\<rparr>]))) = 500 \<and>
   get_prop (body (fst (analyze sample_platform sample_time sample_result (sample_request 1)
      (sample_world [sample_doc\<lparr>status := Archived\<rparr>])))) ''isDuplicate'' = Some JUndefined \<and>
   docs (snd (analyze sample_platform sample_time sample_result (sample_request 1)
      (sample_world [sample_doc\<lparr>status := Archived\<rparr>]))) = [sample_doc\<lparr>status := Archived\<rparr>]"
proof -
  let ?d = "sample_doc\<lparr>status := Archived\<rparr>"
  have d: "?d \<in> set (docs (sample_world [?d]))"
    "fileHash ?d = hex_encode (sha256 sample_platform [1, 2, 3])"
    "uploadedBy ?d = user_id (sample_request 1)" "status ?d = Archived \<or> status ?d = Deleted"
    by (simp_all add: sample_world_props sample_request_props sample_hash, simp_all add: sample_doc_def)
  have n: "findOne (hex_encode (sha256 sample_platform [1, 2, 3])) (user_id (sample_request 1))
      (docs (sample_world [?d])) = None"
    by (simp add: sample_hash sample_world_props sample_request_props findOne_def)
  show ?thesis
    using archived_reupload_rejected [OF sample_request_props(1) getUploadedFilePath_sample
        sample_world_props(2) d n, of sample_time sample_result]
    by (simp add: sample_world_props)
qed

text \<open>
  C3, as amended. When the save of the new record fails with a duplicate-key error, the
  route does not query again: the inner \<open>catch\<close> deletes the upload and throws the error
  on, and the outer \<open>catch\<close> answers 500 \<open>Failed to analyze contract\<close> with the
  store's message. No record is created.
\<close>

theorem duplicate_key_conflict_is_reported:
  assumes "analyze_try P now result req f p h w = (Inl (DuplicateKey i), w')"
  shows "analyze_miss P now result req f p h w =
           (analyze_failed (DuplicateKey i), deleteFileIfExists p w') \<and>
         status_code (fst (analyze_miss P now result req f p h w)) = 500 \<and>
         get_prop (body (fst (analyze_miss P now result req f p h w))) ''error'' =
           Some (JStr ''E11000 duplicate key error'') \<and>
         docs (snd (analyze_miss P now result req f p h w)) = docs w \<and>
         files (snd (analyze_miss P now result req f p h w)) p = None"
  using assms analyze_try_Inl [OF assms]
  by (simp add: analyze_miss_def deleteFileIfExists_def analyze_failed_def)

theorem duplicate_key_conflict_is_reported_witness:
  "status_code (fst (analyze_miss sample_platform sample_time sample_result (sample_request 1)
      sample_file ''upload/a.txt'' ''010203'' (sample_world [sample_doc]))) = 500 \<and>
   get_prop (body (fst (analyze_miss sample_platform sample_time sample_result
      (sample_request 1) sample_file ''upload/a.txt'' ''010203'' (sample_world [sample_doc]))))
      ''error'' = Some (JStr ''E11000 duplicate key error'') \<and>
   docs (snd (analyze_miss sample_platform sample_time sample_result (sample_request 1)
      sample_file ''upload/a.txt'' ''010203'' (sample_world [sample_doc]))) = [sample_doc] \<and>
   files (snd (analyze_miss sample_platform sample_time sample_result (sample_request 1)
      sample_file ''upload/a.txt'' ''010203'' (sample_world [sample_doc]))) ''upload/a.txt'' = None"
  using duplicate_key_conflict_is_reported [OF sample_try_conflict [of 1]]
  by (simp add: sample_world_props deleteFileIfExists_def analyze_failed_def)

text \<open>
  The claim as stated fails: the record that won the race is stored and active, and the
  request whose lookup came before it is answered with the error, not with that record.
\<close>

theorem conflict_not_recovered_counterexample:
  "findOne ''010203'' 1 (docs (sample_world [sample_doc])) = Some sample_doc \<and>
   fst (analyze_miss sample_platform sample_time sample_result (sample_request 1)
      sample_file ''upload/a.txt'' ''010203'' (sample_world [sample_doc])) =
     Response 500 (JObj [(''success'', JBool False),
                         (''message'', JStr ''Failed to analyze contract''),
                         (''error'', JStr ''E11000 duplicate key error'')])"
  by (simp add: analyze_miss_def sample_try_conflict analyze_failed_def sample_world_props
      findOne_def, simp add: sample_doc_def)

section \<open>Counting accesses\<close>

lemma findOne_map_update:
  "findOne h u
     (map (\<lambda>x. if doc_id x = k
               then x\<lparr>accessCount := n, lastAccessed := t, updatedAt := t'\<rparr> else x) ds) =
   map_option (\<lambda>x. if doc_id x = k
               then x\<lparr>accessCount := n, lastAccessed := t, updatedAt := t'\<rparr> else x)
     (findOne h u ds)"
  unfolding findOne_def by (induction ds) auto

text \<open>
  Saving a copy \<open>s\<close> of the stored record \<open>d\<close> writes the copy's count plus one, whatever
  the stored count is by then.
\<close>

lemma incrementAccess_snapshot:
  assumes "findOne h u ds = Some d" and "doc_id s = doc_id d"
  shows "\<exists>s' ds'. incrementAccess t s ds = Inr (s', ds') \<and>
           findOne h u ds' =
             Some (d\<lparr>accessCount := accessCount s + 1, lastAccessed := t, updatedAt := t\<rparr>)"
proof -
  have "d \<in> set ds" using assms(1) by (rule findOne_mem)
  then have ex: "\<exists>x\<in>set ds. doc_id x = doc_id s" using assms(2) by auto
  have "incrementAccess t s ds =
      Inr (s\<lparr>accessCount := accessCount s + 1, lastAccessed := t, updatedAt := t\<rparr>,
           map (\<lambda>x. if doc_id x = doc_id s
                  then x\<lparr>accessCount := accessCount s + 1, lastAccessed := t, updatedAt := t\<rparr>
                  else x) ds)"
    using ex by (simp add: incrementAccess_def save_modified_def Let_def)
  moreover have "findOne h u
           (map (\<lambda>x. if doc_id x = doc_id s
                  then x\<lparr>accessCount := accessCount s + 1, lastAccessed := t, updatedAt := t\<rparr>
                  else x) ds) =
         Some (d\<lparr>accessCount := accessCount s + 1, lastAccessed := t, updatedAt := t\<rparr>)"
    using assms by (simp add: findOne_map_update)
  ultimately show ?thesis by blast
qed

text \<open>
  C7. The count is not incremented where it is stored: \<open>incrementAccess\<close> adds one to the
  count of the copy that \<open>findOne\<close> loaded and saves that value. Two cache hits one after
  the other, each loading the record before it saves, leave the stored count two higher.
  Two cache hits that both loaded the record before either saved leave it one higher: one
  of the two accesses is not counted.
\<close>

theorem incrementAccess_read_modify_write:
  assumes "findOne h u ds = Some d"
  shows "(\<exists>d1 ds1 d2 d3 ds2.
            incrementAccess t1 d ds = Inr (d1, ds1) \<and> findOne h u ds1 = Some d2 \<and>
            incrementAccess t2 d2 ds1 = Inr (d3, ds2) \<and>
            map_option accessCount (findOne h u ds2) = Some (accessCount d + 2)) \<and>
         (\<exists>d1 ds1 d3 ds2.
            incrementAccess t1 d ds = Inr (d1, ds1) \<and>
            incrementAccess t2 d ds1 = Inr (d3, ds2) \<and>
            map_option accessCount (findOne h u ds2) = Some (accessCount d + 1))"
proof -
  define d2 where "d2 = d\<lparr>accessCount := accessCount d + 1, lastAccessed := t1, updatedAt := t1\<rparr>"
  obtain d1 ds1 where s1: "incrementAccess t1 d ds = Inr (d1, ds1)"
    and f1: "findOne h u ds1 = Some d2"
    using incrementAccess_snapshot [OF assms, of d t1] unfolding d2_def by auto
  have id2: "doc_id d2 = doc_id d2" "doc_id d = doc_id d2" by (simp_all add: d2_def)
  obtain d3 ds2 where s2: "incrementAccess t2 d2 ds1 = Inr (d3, ds2)"
    and f2: "findOne h u ds2 =
      Some (d2\<lparr>accessCount := accessCount d2 + 1, lastAccessed := t2, updatedAt := t2\<rparr>)"
    using incrementAccess_snapshot [OF f1 id2(1), of t2] by auto
  obtain d3' ds2' where s2': "incrementAccess t2 d ds1 = Inr (d3', ds2')"
    and f2': "findOne h u ds2' =
      Some (d2\<lparr>accessCount := accessCount d + 1, lastAccessed := t2, updatedAt := t2\<rparr>)"
    using incrementAccess_snapshot [OF f1 id2(2), of t2] by auto
  have c2: "map_option accessCount (findOne h u ds2) = Some (accessCount d + 2)"
    using f2 by (simp add: d2_def)
  have c1: "map_option accessCount (findOne h u ds2') = Some (accessCount d + 1)"
    using f2' by simp
  from s1 f1 s2 c2 s2' c1 show ?thesis by blast
qed

theorem incrementAccess_read_modify_write_witness:
  "(\<exists>d1 ds1 d2 d3 ds2.
      incrementAccess ''t1'' sample_doc [sample_doc] = Inr (d1, ds1) \<and>
      findOne ''010203'' 1 ds1 = Some d2 \<and>
      incrementAccess ''t2'' d2 ds1 = Inr (d3, ds2) \<and>
      map_option accessCount (findOne ''010203'' 1 ds2) = Some 2) \<and>
   (\<exists>d1 ds1 d3 ds2.
      incrementAccess ''t1'' sample_doc [sample_doc] = Inr (d1, ds1) \<and>
      incrementAccess ''t2'' sample_doc ds1 = Inr (d3, ds2) \<and>
      map_option accessCount (findOne ''010203'' 1 ds2) = Some 1)"
proof -
  have f: "findOne ''010203'' 1 [sample_doc] = Some sample_doc"
    by (simp add: findOne_def sample_doc_def)
  have a: "accessCount sample_doc = 0" by (simp add: sample_doc_def)
  show ?thesis
    using incrementAccess_read_modify_write [OF f, of "''t1''" "''t2''"] a by simp
qed

text \<open>
  On the sample record: both requests load it with count 0, both save, and the stored count
  is 1.
\<close>

theorem lost_update_on_sample_record:
  "findOne ''010203'' 1 [sample_doc] = Some sample_doc \<and>
   accessCount sample_doc = 0 \<and>
   (case incrementAccess ''t1'' sample_doc [sample_doc] of
      Inl e \<Rightarrow> None
    | Inr (d1, ds1) \<Rightarrow>
        (case incrementAccess ''t2'' sample_doc ds1 of
           Inl e \<Rightarrow> None
         | Inr (d2, ds2) \<Rightarrow> map_option accessCount (findOne ''010203'' 1 ds2))) = Some 1"
  by (simp add: findOne_def incrementAccess_def save_modified_def sample_doc_def)

section \<open>JSON text is read back\<close>

subsection \<open>Numbers\<close>

lemma of_char_digit_char: "d < 10 \<Longrightarrow> (of_char (digit_char d) :: nat) = 48 + d"
  by (simp add: digit_char_def)

lemma is_digit_digit_char: "d < 10 \<Longrightarrow> is_digit (digit_char d)"
  by (simp add: is_digit_def of_char_digit_char)

lemma show_nat_digits: "\<forall>c \<in> set (show_nat n). is_digit c"
proof (induction n rule: show_nat.induct)
  case (1 n)
  show ?case
  proof (cases "n < 10")
    case True
    then show ?thesis by (subst show_nat.simps) (simp add: is_digit_digit_char)
  next
    case False
    with 1 show ?thesis by (subst show_nat.simps) (simp add: is_digit_digit_char)
  qed
qed

lemma show_nat_nonempty: "show_nat n \<noteq> []"
  by (subst show_nat.simps) simp

lemma read_nat_append: "read_nat (ds @ [c]) = 10 * read_nat ds + (of_char c - 48)"
  by (simp add: read_nat_def)

lemma read_nat_show_nat: "read_nat (show_nat n) = n"
proof (induction n rule: show_nat.induct)
  case (1 n)
  show ?case
  proof (cases "n < 10")
    case True
    then show ?thesis
      by (subst show_nat.simps) (simp add: read_nat_def of_char_digit_char)
  next
    case False
    with 1 have "read_nat (show_nat (n div 10)) = n div 10" by simp
    with False show ?thesis
      by (subst show_nat.simps) (simp add: read_nat_append of_char_digit_char)
  qed
qed

lemma hd_show_nat_zero: "hd (show_nat n) = CHR ''0'' \<Longrightarrow> n = 0"
proof (induction n rule: show_nat.induct)
  case (1 n)
  show ?case
  proof (cases "n < 10")
    case True
    with 1(2) have "digit_char n = CHR ''0''" by (subst (asm) show_nat.simps) simp
    then have "(of_char (digit_char n) :: nat) = of_char (CHR ''0'')" by simp
    with True show ?thesis by (simp add: of_char_digit_char)
  next
    case False
    with 1(2) have "hd (show_nat (n div 10)) = CHR ''0''"
      by (subst (asm) show_nat.simps) (simp add: show_nat_nonempty)
    with 1(1) False have "n div 10 = 0" by simp
    with False show ?thesis by simp
  qed
qed

lemma show_nat_zero: "show_nat 0 = ''0''"
  by (subst show_nat.simps) (simp add: digit_char_def char_of_def bit_0)

lemma delim_not_digit: "delim r \<Longrightarrow> r \<noteq> [] \<Longrightarrow> \<not> is_digit (hd r)"
  by (auto simp: delim_def is_digit_def)

lemma hd_show_nat_digit: "is_digit (hd (show_nat n))"
  using show_nat_digits [of n] show_nat_nonempty [of n] by (cases "show_nat n") auto

subsection \<open>Doubles and their digits\<close>

lemma to_double_shape:
  assumes "to_double q = Num r" and "0 < q"
  shows "\<exists>m u. 0 \<le> m \<and> - 1074 \<le> u \<and> r = of_int m * 2 powi u"
proof -
  let ?u = "max (floor_log 2 q - 52) (- 1074)"
  let ?m = "round_half_even (q / 2 powi ?u)"
  have r: "r = of_int ?m * 2 powi ?u"
    using assms by (simp add: to_double_def Let_def split: if_splits)
  have "0 \<le> q / 2 powi ?u" using assms(2) by simp
  then have "0 \<le> \<lfloor>q / 2 powi ?u\<rfloor>" by simp
  then have "0 \<le> ?m" by (simp add: round_half_even_def Let_def)
  with r show ?thesis by (intro exI [of _ ?m] exI [of _ ?u]) simp
qed

lemma dyadic_decimal:
  assumes "- 1074 \<le> u" and "e \<le> - 1074" and "0 \<le> m"
  shows "\<exists>N::nat. of_int m * 2 powi u / 10 powi e = (of_nat N :: rat)"
proof -
  have ten: "(10::rat) powi e = 2 powi e * 5 powi e"
    using power_int_mult_distrib [of "2::rat" 5 e] by simp
  have two: "(2::rat) powi u / 2 powi e = 2 ^ nat (u - e)"
    using assms(1,2) power_int_diff [of "2::rat" u e] by (simp add: power_int_nonneg_exp)
  have five: "1 / (5::rat) powi e = 5 ^ nat (- e)"
    using assms(2) power_int_minus_divide [of "5::rat" "- e"]
    by (simp add: power_int_nonneg_exp)
  have "of_int m * 2 powi u / 10 powi e = of_int m * ((2::rat) powi u / 2 powi e) * (1 / 5 powi e)"
    unfolding ten by simp
  also have "\<dots> = of_int m * 2 ^ nat (u - e) * 5 ^ nat (- e)"
    unfolding two five ..
  also have "\<dots> = of_nat (nat m * 2 ^ nat (u - e) * 5 ^ nat (- e))"
    using assms(3) by simp
  finally show ?thesis by blast
qed

lemma candidates_exact:
  assumes "q / 10 powi e = of_nat N"
  shows "candidates q e = [(N, e), (N + 1, e)]"
  using assms by (simp add: candidates_def Let_def)

lemma digits_from_total:
  "to_double q = Num q \<Longrightarrow> 0 < q \<Longrightarrow> digits_from q e \<noteq> None"
proof (induction q e rule: digits_from.induct)
  case (1 q e)
  let ?ok = "\<lambda>(s, e'). to_double (of_nat s * 10 powi e') = Num q"
  show ?case
  proof (cases "find ?ok (candidates q e)")
    case (Some c)
    then show ?thesis by (subst digits_from.simps) simp
  next
    case None
    show ?thesis
    proof (cases "e \<le> - 1074")
      case False
      with None 1 have "digits_from q (e - 1) \<noteq> None" by simp
      with None False show ?thesis by (subst digits_from.simps) simp
    next
      case True
      obtain m u where mu: "0 \<le> m" "- 1074 \<le> u" "q = of_int m * 2 powi u"
        using to_double_shape [OF "1.prems"] by blast
      obtain N :: nat where N: "q / 10 powi e = of_nat N"
        using dyadic_decimal [OF mu(2) True mu(1)] mu(3) by blast
      then have "of_nat N * 10 powi e = q" by (simp add: field_simps)
      with "1.prems"(1) have "?ok (N, e)" by simp
      then have "find ?ok (candidates q e) \<noteq> None"
        unfolding candidates_exact [OF N] by simp
      with None show ?thesis by simp
    qed
  qed
qed

lemma digits_from_sound:
  "digits_from q e0 = Some (s, e) \<Longrightarrow> to_double (of_nat s * 10 powi e) = Num q"
proof (induction q e0 rule: digits_from.induct)
  case (1 q e0)
  let ?ok = "\<lambda>(s, e'). to_double (of_nat s * 10 powi e') = Num q"
  show ?case
  proof (cases "find ?ok (candidates q e0)")
    case (Some c)
    with "1.prems" have "c = (s, e)" by (subst (asm) digits_from.simps) simp
    with Some have "?ok (s, e)" by (auto simp: find_Some_iff)
    then show ?thesis by simp
  next
    case None
    with "1.prems" have "\<not> e0 \<le> - 1074" and "digits_from q (e0 - 1) = Some (s, e)"
      by (subst (asm) digits_from.simps, simp split: if_splits)+
    with None 1 show ?thesis by simp
  qed
qed

lemma strip_zeros_value:
  "strip_zeros s e = (s', e') \<Longrightarrow> (of_nat s' :: rat) * 10 powi e' = of_nat s * 10 powi e"
proof (induction s e rule: strip_zeros.induct)
  case (1 s e)
  show ?case
  proof (cases "0 < s \<and> s mod 10 = 0")
    case False
    with "1.prems" show ?thesis by (subst (asm) strip_zeros.simps) auto
  next
    case True
    with "1.prems" have "strip_zeros (s div 10) (e + 1) = (s', e')"
      by (subst (asm) strip_zeros.simps) simp
    with True 1 have "(of_nat s' :: rat) * 10 powi e' = of_nat (s div 10) * 10 powi (e + 1)"
      by simp
    also have "\<dots> = of_nat (s div 10) * 10 * 10 powi e"
      by (simp add: power_int_add)
    also have "of_nat (s div 10) * (10::rat) = of_nat (s div 10 * 10)" by simp
    also have "s div 10 * 10 = s" using True by auto
    finally show ?thesis .
  qed
qed

lemma strip_zeros_pos: "strip_zeros s e = (s', e') \<Longrightarrow> 0 < s \<Longrightarrow> 0 < s'"
proof (induction s e rule: strip_zeros.induct)
  case (1 s e)
  show ?case
  proof (cases "s mod 10 = 0")
    case False
    with "1.prems" show ?thesis by (subst (asm) strip_zeros.simps) auto
  next
    case True
    with "1.prems" have "strip_zeros (s div 10) (e + 1) = (s', e')"
      by (subst (asm) strip_zeros.simps) simp
    moreover have "0 < s div 10" using True "1.prems"(2) by (simp add: div_greater_zero_iff) presburger
    ultimately show ?thesis using 1 True by simp
  qed
qed

subsection \<open>Reading a number literal\<close>

lemma read_nat_foldl:
  "foldl (\<lambda>a c. 10 * a + (of_char c - 48)) (a::nat) (replicate n (CHR ''0'') @ ds) =
   foldl (\<lambda>a c. 10 * a + (of_char c - 48)) (a * 10 ^ n) ds"
  by (induction n arbitrary: a) (simp_all add: algebra_simps)

lemma read_nat_zeros_front: "read_nat (replicate n (CHR ''0'') @ ds) = read_nat ds"
  using read_nat_foldl [of 0 n ds] by (simp add: read_nat_def)

lemma read_nat_zero_front: "read_nat (CHR ''0'' # ds) = read_nat ds"
  using read_nat_zeros_front [of 1 ds] by simp

lemma read_nat_zeros_back: "read_nat (ds @ replicate n (CHR ''0'')) = read_nat ds * 10 ^ n"
proof (induction n)
  case 0
  show ?case by simp
next
  case (Suc n)
  have "ds @ replicate (Suc n) (CHR ''0'') = (ds @ replicate n (CHR ''0'')) @ [CHR ''0'']"
    by (simp add: replicate_append_same)
  then have "read_nat (ds @ replicate (Suc n) (CHR ''0'')) =
      10 * read_nat (ds @ replicate n (CHR ''0''))"
    by (simp only: read_nat_append) simp
  with Suc show ?case by simp
qed

lemma digits_span:
  assumes "\<forall>c \<in> set ds. is_digit c" and "r = [] \<or> \<not> is_digit (hd r)"
  shows "takeWhile is_digit (ds @ r) = ds" and "dropWhile is_digit (ds @ r) = r"
proof -
  have tr: "takeWhile is_digit r = []" and dr: "dropWhile is_digit r = r"
    using assms(2) by (cases r; simp)+
  show "takeWhile is_digit (ds @ r) = ds"
    using assms(1) tr by (simp add: takeWhile_append2)
  show "dropWhile is_digit (ds @ r) = r"
    using assms(1) dr by (simp add: dropWhile_append2)
qed

lemma zeros_digits: "\<forall>c \<in> set (replicate n (CHR ''0'')). is_digit c"
  by (simp add: is_digit_def)

lemma scan_fraction_none:
  "r = [] \<or> hd r \<noteq> CHR ''.'' \<Longrightarrow> scan_fraction r = Some ([], r)"
  by (cases r) (auto simp: scan_fraction_def)

lemma scan_fraction_some:
  assumes "\<forall>c \<in> set fs. is_digit c" and "fs \<noteq> []" and "r = [] \<or> \<not> is_digit (hd r)"
  shows "scan_fraction (CHR ''.'' # fs @ r) = Some (fs, r)"
  using digits_span [OF assms(1,3)] assms(2) by (simp add: scan_fraction_def)

lemma scan_exponent_none:
  "r = [] \<or> (hd r \<noteq> CHR ''e'' \<and> hd r \<noteq> CHR ''E'') \<Longrightarrow> scan_exponent r = Some (0, r)"
  by (cases r) (auto simp: scan_exponent_def)

lemma scan_exponent_some:
  assumes "r = [] \<or> \<not> is_digit (hd r)"
  shows "scan_exponent (CHR ''e'' # (if x < 0 then CHR ''-'' else CHR ''+'') # show_nat (nat \<bar>x\<bar>) @ r)
           = Some (x, r)"
  using digits_span [OF show_nat_digits assms, of "nat \<bar>x\<bar>"] show_nat_nonempty [of "nat \<bar>x\<bar>"]
  by (simp add: scan_exponent_def read_nat_show_nat)

lemma delim_cases:
  assumes "delim r"
  shows "r = [] \<or> \<not> is_digit (hd r)" and "r = [] \<or> hd r \<noteq> CHR ''.''"
    and "r = [] \<or> (hd r \<noteq> CHR ''e'' \<and> hd r \<noteq> CHR ''E'')"
  using assms by (auto simp: delim_def is_digit_def)

lemma not_digit_chars:
  "\<not> is_digit (CHR ''.'')" "\<not> is_digit (CHR ''e'')" "\<not> is_digit (CHR ''-'')"
  by (simp_all add: is_digit_def)

text \<open>
  What \<open>format_digits\<close> writes for the digits of \<open>s\<close> and the place \<open>n\<close> of the point is
  read as \<open>s * 10 ^ (n - k)\<close>, where \<open>k\<close> is the number of the digits.
\<close>

lemma scan_unsigned_format:
  assumes "0 < s" and "delim r"
  shows "scan_unsigned (format_digits (show_nat s) n @ r) =
           Some (of_nat s * 10 powi (n - int (length (show_nat s))), r)"
proof -
  define ds where "ds = show_nat s"
  define k where "k = int (length ds)"
  have dig: "\<forall>c \<in> set ds. is_digit c" unfolding ds_def by (rule show_nat_digits)
  have ne: "ds \<noteq> []" unfolding ds_def by (rule show_nat_nonempty)
  have hd0: "hd ds \<noteq> CHR ''0''" using hd_show_nat_zero [of s] assms(1) by (auto simp: ds_def)
  have val: "read_nat ds = s" unfolding ds_def by (rule read_nat_show_nat)
  have kpos: "0 < k" using ne by (simp add: k_def)
  note d = delim_cases [OF assms(2)]
  consider (int) "- 6 < n" "n \<le> 21" "k \<le> n"
    | (point) "- 6 < n" "n \<le> 21" "n < k" "0 < n"
    | (small) "- 6 < n" "n \<le> 0"
    | (exp1) "\<not> (- 6 < n \<and> n \<le> 21)" "k = 1"
    | (expk) "\<not> (- 6 < n \<and> n \<le> 21)" "k \<noteq> 1"
    using kpos by linarith
  then have "scan_unsigned (format_digits ds n @ r) = Some (of_nat s * 10 powi (n - k), r)"
  proof cases
    case int
    let ?z = "replicate (nat (n - k)) (CHR ''0'')"
    have f: "format_digits ds n = ds @ ?z" using int by (simp add: format_digits_def k_def Let_def)
    have "is_digit (CHR ''0'')" by (simp add: is_digit_def)
    with dig have dz: "\<forall>c \<in> set (ds @ ?z). is_digit c" by auto
    have hdz: "hd (ds @ ?z) = hd ds" using ne by simp
    have "of_nat (read_nat (ds @ ?z)) = (of_nat s :: rat) * 10 powi (n - k)"
      using int(3) by (simp add: read_nat_zeros_back val power_int_nonneg_exp)
    then show ?thesis
      unfolding f scan_unsigned_def Let_def
      using digits_span [OF dz d(1)] ne hd0 hdz scan_fraction_none [OF d(2)]
        scan_exponent_none [OF d(3)]
      by simp
  next
    case point
    let ?a = "take (nat n) ds" and ?b = "drop (nat n) ds"
    have f: "format_digits ds n @ r = ?a @ (CHR ''.'' # ?b @ r)"
      using point by (simp add: format_digits_def k_def Let_def)
    have da: "\<forall>c \<in> set ?a. is_digit c" using dig by (auto dest: in_set_takeD)
    have db: "\<forall>c \<in> set ?b. is_digit c" using dig by (auto dest: in_set_dropD)
    have ane: "?a \<noteq> []" using point(4) ne by simp
    have bne: "?b \<noteq> []" using point(3,4) by (simp add: k_def)
    have hda: "hd ?a = hd ds" using point(4) ne by (cases ds) (auto simp: take_Cons')
    have lb: "int (length ?b) = k - n" using point(3,4) by (simp add: k_def)
    have sp: "takeWhile is_digit (?a @ (CHR ''.'' # ?b @ r)) = ?a"
      "dropWhile is_digit (?a @ (CHR ''.'' # ?b @ r)) = CHR ''.'' # ?b @ r"
      using digits_span [OF da, of "CHR ''.'' # ?b @ r"] not_digit_chars by simp_all
    have "of_nat (read_nat (?a @ ?b)) * 10 powi (0 - int (length ?b)) =
            (of_nat s :: rat) * 10 powi (n - k)"
      using lb val by simp
    then show ?thesis
      unfolding f scan_unsigned_def Let_def sp
      using ane hd0 hda scan_fraction_some [OF db bne d(1)] scan_exponent_none [OF d(3)]
      by simp
  next
    case small
    let ?z = "replicate (nat (- n)) (CHR ''0'')"
    have kn: "\<not> int (length ds) \<le> n" using small(2) kpos unfolding k_def by linarith
    have f: "format_digits ds n @ r = ''0'' @ (CHR ''.'' # (?z @ ds) @ r)"
      using small kn by (simp add: format_digits_def Let_def)
    have "is_digit (CHR ''0'')" by (simp add: is_digit_def)
    with dig have dz: "\<forall>c \<in> set (?z @ ds). is_digit c" by auto
    have d0: "\<forall>c \<in> set ''0''. is_digit c" by (simp add: is_digit_def)
    have sp: "takeWhile is_digit (''0'' @ (CHR ''.'' # (?z @ ds) @ r)) = ''0''"
      "dropWhile is_digit (''0'' @ (CHR ''.'' # (?z @ ds) @ r)) = CHR ''.'' # (?z @ ds) @ r"
      using digits_span [OF d0, of "CHR ''.'' # (?z @ ds) @ r"] not_digit_chars by simp_all
    have l: "int (length (?z @ ds)) = k - n" using small by (simp add: k_def)
    have "read_nat (''0'' @ ?z @ ds) = s"
      using read_nat_zero_front [of "?z @ ds"] read_nat_zeros_front [of "nat (- n)" ds] val by simp
    then have "of_nat (read_nat (''0'' @ ?z @ ds)) * 10 powi (0 - int (length (?z @ ds))) =
            (of_nat s :: rat) * 10 powi (n - k)"
      using l by simp
    then show ?thesis
      unfolding f scan_unsigned_def Let_def sp
      using ne scan_fraction_some [OF dz _ d(1)] scan_exponent_none [OF d(3)]
      by simp
  next
    case exp1
    let ?x = "n - 1"
    let ?e = "CHR ''e'' # (if ?x < 0 then CHR ''-'' else CHR ''+'') # show_nat (nat \<bar>?x\<bar>) @ r"
    have f: "format_digits ds n @ r = ds @ ?e"
      using exp1 by (auto simp: format_digits_def k_def Let_def)
    have sp: "takeWhile is_digit (ds @ ?e) = ds" "dropWhile is_digit (ds @ ?e) = ?e"
      using digits_span [OF dig, of ?e] not_digit_chars by simp_all
    have fr: "scan_fraction ?e = Some ([], ?e)" by (rule scan_fraction_none) simp
    show ?thesis
      unfolding f scan_unsigned_def Let_def sp
      using ne hd0 fr scan_exponent_some [OF d(1), of ?x] val exp1(2)
      by simp
  next
    case expk
    let ?x = "n - 1"
    let ?e = "CHR ''e'' # (if ?x < 0 then CHR ''-'' else CHR ''+'') # show_nat (nat \<bar>?x\<bar>) @ r"
    let ?a = "take 1 ds" and ?b = "drop 1 ds"
    have f: "format_digits ds n @ r = ?a @ (CHR ''.'' # ?b @ ?e)"
      using expk by (auto simp: format_digits_def k_def Let_def)
    have da: "\<forall>c \<in> set ?a. is_digit c" using dig by (auto dest: in_set_takeD)
    have db: "\<forall>c \<in> set ?b. is_digit c" using dig by (auto dest: in_set_dropD)
    have ane: "?a \<noteq> []" using ne by simp
    have bne: "?b \<noteq> []" using expk(2) kpos by (cases ds) (auto simp: k_def)
    have hda: "hd ?a = hd ds" using ne by (cases ds) auto
    have la: "length ?a = 1" using ne by (cases ds) auto
    have lb: "int (length ?b) = k - 1" using ne by (cases ds) (auto simp: k_def)
    have sp: "takeWhile is_digit (?a @ (CHR ''.'' # ?b @ ?e)) = ?a"
      "dropWhile is_digit (?a @ (CHR ''.'' # ?b @ ?e)) = CHR ''.'' # ?b @ ?e"
      using digits_span [OF da, of "CHR ''.'' # ?b @ ?e"] not_digit_chars by simp_all
    have fr: "scan_fraction (CHR ''.'' # ?b @ ?e) = Some (?b, ?e)"
      by (rule scan_fraction_some [OF db bne]) (simp add: not_digit_chars)
    have "of_nat (read_nat (?a @ ?b)) * 10 powi (?x - int (length ?b)) =
            (of_nat s :: rat) * 10 powi (n - k)"
      using lb val by simp
    then show ?thesis
      unfolding f scan_unsigned_def Let_def sp
      using ane hd0 hda la fr scan_exponent_some [OF d(1), of ?x]
      by simp
  qed
  then show ?thesis by (simp add: ds_def k_def)
qed

lemma format_digits_start:
  assumes "ds \<noteq> []" and "\<forall>c \<in> set ds. is_digit c"
  shows "format_digits ds n \<noteq> [] \<and> is_digit (hd (format_digits ds n))"
proof -
  have h: "is_digit (hd ds)" using assms by (cases ds) auto
  have t: "0 < m \<Longrightarrow> hd (take m ds) = hd ds \<and> take m ds \<noteq> []" for m
    using assms(1) by (cases ds; cases m) auto
  have z: "is_digit (CHR ''0'')" by (simp add: is_digit_def)
  show ?thesis
    using assms(1) h z t [of "nat n"] t [of 1]
    by (auto simp: format_digits_def Let_def hd_append)
qed

lemma positive_to_string_digits:
  assumes "to_double q = Num q" and "0 < q"
  obtains s e where "0 < s" and "to_double (of_nat s * 10 powi e) = Num q"
    and "positive_to_string q = format_digits (show_nat s) (e + int (length (show_nat s)))"
proof -
  obtain s0 e0 where c: "digits_from q (floor_log 10 q) = Some (s0, e0)"
    using digits_from_total [OF assms, of "floor_log 10 q"] by auto
  have v0: "to_double (of_nat s0 * 10 powi e0) = Num q"
    using c by (rule digits_from_sound)
  have "s0 \<noteq> 0"
  proof
    assume "s0 = 0"
    with v0 have "Num 0 = Num q" by (simp add: to_double_def)
    with assms(2) show False by simp
  qed
  then have p0: "0 < s0" by simp
  obtain s e where st: "strip_zeros s0 e0 = (s, e)" by (cases "strip_zeros s0 e0")
  have "(of_nat s :: rat) * 10 powi e = of_nat s0 * 10 powi e0"
    using st by (rule strip_zeros_value)
  with v0 have v: "to_double (of_nat s * 10 powi e) = Num q" by simp
  have p: "0 < s" using st p0 by (rule strip_zeros_pos)
  have "positive_to_string q = format_digits (show_nat s) (e + int (length (show_nat s)))"
    using c st by (simp add: positive_to_string_def Let_def)
  with p v show ?thesis by (rule that)
qed

lemma scan_unsigned_positive:
  assumes "to_double q = Num q" and "0 < q" and "delim r"
  shows "\<exists>v. scan_unsigned (positive_to_string q @ r) = Some (v, r) \<and> to_double v = Num q"
proof -
  obtain s e where s: "0 < s" and v: "to_double (of_nat s * 10 powi e) = Num q"
    and f: "positive_to_string q = format_digits (show_nat s) (e + int (length (show_nat s)))"
    using assms(1,2) by (rule positive_to_string_digits)
  have "scan_unsigned (positive_to_string q @ r) = Some (of_nat s * 10 powi e, r)"
    unfolding f using scan_unsigned_format [OF s assms(3), of "e + int (length (show_nat s))"]
    by simp
  with v show ?thesis by blast
qed

lemma positive_to_string_start:
  assumes "to_double q = Num q" and "0 < q"
  shows "positive_to_string q \<noteq> [] \<and> is_digit (hd (positive_to_string q))"
proof -
  obtain s e where
    f: "positive_to_string q = format_digits (show_nat s) (e + int (length (show_nat s)))"
    using assms by (rule positive_to_string_digits)
  show ?thesis
    unfolding f by (rule format_digits_start [OF show_nat_nonempty show_nat_digits])
qed

lemma scan_unsigned_zero:
  assumes "delim r"
  shows "scan_unsigned (''0'' @ r) = Some (0, r)"
proof -
  have d0: "\<forall>c \<in> set ''0''. is_digit c" by (simp add: is_digit_def)
  note d = delim_cases [OF assms]
  show ?thesis
    unfolding scan_unsigned_def Let_def digits_span [OF d0 d(1)]
    using scan_fraction_none [OF d(2)] scan_exponent_none [OF d(3)]
    by (simp add: read_nat_def)
qed

text \<open>The text of a number that JSON text holds is read as that number.\<close>

lemma scan_number_to_string:
  assumes "json_number x" and "delim r"
  shows "scan_number (number_to_string x @ r) = Some (x, r)"
proof -
  from assms(1) obtain q where x: "x = Num q" and dq: "to_double \<bar>q\<bar> = Num \<bar>q\<bar>"
    by (cases x) auto
  consider (zero) "q = 0" | (pos) "0 < q" | (neg) "q < 0" by linarith
  then show ?thesis
  proof cases
    case zero
    then show ?thesis
      using scan_unsigned_zero [OF assms(2)] x by (simp add: scan_number_def to_double_def)
  next
    case pos
    with dq have d: "to_double q = Num q" by simp
    obtain v where v: "scan_unsigned (positive_to_string q @ r) = Some (v, r)"
      and tv: "to_double v = Num q"
      using scan_unsigned_positive [OF d pos assms(2)] by blast
    obtain c cs where s: "positive_to_string q = c # cs" and c: "is_digit c"
      using positive_to_string_start [OF d pos] by (cases "positive_to_string q") auto
    from c have "c \<noteq> CHR ''-''" by (auto simp: is_digit_def)
    with v tv s pos x show ?thesis by (simp add: scan_number_def)
  next
    case neg
    with dq have d: "to_double (- q) = Num (- q)" by simp
    from neg have p: "0 < - q" by simp
    obtain v where v: "scan_unsigned (positive_to_string (- q) @ r) = Some (v, r)"
      and tv: "to_double v = Num (- q)"
      using scan_unsigned_positive [OF d p assms(2)] by blast
    with neg x show ?thesis by (simp add: scan_number_def)
  qed
qed

lemma number_to_string_start:
  assumes "json_number x"
  shows "number_to_string x \<noteq> [] \<and>
         (hd (number_to_string x) = CHR ''-'' \<or> is_digit (hd (number_to_string x)))"
proof -
  from assms obtain q where x: "x = Num q" and dq: "to_double \<bar>q\<bar> = Num \<bar>q\<bar>"
    by (cases x) auto
  consider (zero) "q = 0" | (pos) "0 < q" | (neg) "q < 0" by linarith
  then show ?thesis
  proof cases
    case zero
    with x show ?thesis by (simp add: is_digit_def)
  next
    case pos
    with dq have "to_double q = Num q" by simp
    from positive_to_string_start [OF this pos] pos x show ?thesis by simp
  next
    case neg
    with x show ?thesis by simp
  qed
qed

lemma digit_count_le: "2 \<le> b \<Longrightarrow> n < b ^ k \<Longrightarrow> digit_count b n \<le> k"
proof (induction k arbitrary: n)
  case 0
  then show ?case by (subst digit_count.simps) simp
next
  case (Suc k)
  show ?case
  proof (cases "n = 0")
    case True
    then show ?thesis by (subst digit_count.simps) simp
  next
    case False
    from Suc.prems have "n div b < b ^ k"
      by (simp add: less_mult_imp_div_less mult.commute)
    with Suc have "digit_count b (n div b) \<le> k" by simp
    with False Suc.prems(1) show ?thesis by (subst digit_count.simps) simp
  qed
qed

lemma round_half_even_of_int: "round_half_even (of_int j) = j"
  by (simp add: round_half_even_def)

text \<open>An integer below \<open>2 ^ 53\<close> in size is a double.\<close>

lemma to_double_of_nat:
  assumes "n < 2 ^ 53"
  shows "to_double (of_nat n) = Num (of_nat n)"
proof (cases "n = 0")
  case True
  then show ?thesis by (simp add: to_double_def)
next
  case False
  define u where "u = max (floor_log 2 (of_nat n) - 52) (- 1074)"
  have "digit_count 2 n \<le> 53" using assms by (intro digit_count_le) simp_all
  moreover have "floor_log 2 (of_nat n) = int (digit_count 2 n) - 1"
    using False by (simp add: floor_log_def)
  ultimately have u: "u \<le> 0" "- 1074 \<le> u" by (simp_all add: u_def)
  have p: "(2::rat) powi u = 1 / 2 ^ nat (- u)"
    using u(1) power_int_minus_divide [of "2::rat" "- u"] by (simp add: power_int_nonneg_exp)
  have "of_nat n / (2::rat) powi u = of_int (int n * 2 ^ nat (- u))"
    unfolding p by simp
  then have m: "round_half_even (of_nat n / 2 powi u) = int n * 2 ^ nat (- u)"
    by (simp only: round_half_even_of_int)
  have r: "of_int (round_half_even (of_nat n / 2 powi u)) * (2::rat) powi u = of_nat n"
    by (simp only: m) (simp add: p)
  have "(of_nat n :: rat) < 2 ^ 53" using assms by (metis of_nat_less_iff of_nat_numeral of_nat_power)
  also have "\<dots> \<le> 2 powi 1024" by simp
  finally have "\<not> (2::rat) powi 1024 \<le> of_nat n" by simp
  with False r show ?thesis
    by (simp add: to_double_def Let_def u_def [symmetric])
qed

lemma json_number_of_int: "\<bar>n\<bar> < 2 ^ 53 \<Longrightarrow> json_number (Num (of_int n))"
proof -
  assume a: "\<bar>n\<bar> < 2 ^ 53"
  have "\<bar>of_int n :: rat\<bar> = of_nat (nat \<bar>n\<bar>)" by simp
  moreover have "nat \<bar>n\<bar> < 2 ^ 53" using a by (simp add: nat_less_iff)
  ultimately show ?thesis using to_double_of_nat [of "nat \<bar>n\<bar>"] by (simp del: of_nat_nat)
qed

subsection \<open>String literals\<close>

lemma hex_val_hex_digit: "d < 16 \<Longrightarrow> hex_val (hex_digit d) = Some d"
  by (auto simp: hex_val_def hex_digit_def Let_def)

lemma hex_val_zero: "hex_val (CHR ''0'') = Some 0"
  by (simp add: hex_val_def)

lemma scan_string_quote: "scan_string (CHR 0x22 # rest) = Some ([], rest)"
  by (cases rest) simp_all

lemma scan_string_plain:
  assumes "c \<noteq> CHR 0x22" and "c \<noteq> CHR 0x5C" and "\<not> (of_char c :: nat) < 32" and "rest \<noteq> []"
  shows "scan_string (c # rest) =
           (case scan_string rest of None \<Rightarrow> None | Some (s, t) \<Rightarrow> Some (c # s, t))"
  using assms by (cases rest) simp_all

lemma scan_string_escape:
  assumes "unescape_simple e = Some ch" and "e \<noteq> CHR ''u''"
  shows "scan_string (CHR 0x5C # e # r) =
           (case scan_string r of None \<Rightarrow> None | Some (s, t) \<Rightarrow> Some (ch # s, t))"
  using assms by simp

lemma scan_string_u:
  assumes "unescape_u a b x y = Some u"
  shows "scan_string (CHR 0x5C # CHR ''u'' # a # b # x # y # r) =
           (case scan_string r of None \<Rightarrow> None | Some (s, t) \<Rightarrow> Some (u @ s, t))"
  using assms by simp

lemma unescape_control:
  assumes "(of_char c :: nat) < 32"
  shows "unescape_u (CHR ''0'') (CHR ''0'') (hex_digit (of_char c div 16))
           (hex_digit (of_char c mod 16)) = Some [c]"
proof -
  have d: "(of_char c :: nat) div 16 < 16" "(of_char c :: nat) mod 16 < 16"
    using assms by simp_all
  have "16 * ((of_char c :: nat) div 16) + of_char c mod 16 = of_char c" by simp
  then show ?thesis
    using assms
    by (simp add: unescape_u_def hex_val_zero hex_val_hex_digit [OF d(1)]
        hex_val_hex_digit [OF d(2)] utf8_of_code_def)
qed

lemma scan_string_quote_char:
  "scan_string (quote_char c @ CHR 0x22 # r) = Some ([c], r) \<and>
   (rest \<noteq> [] \<longrightarrow> scan_string (quote_char c @ rest) =
           (case scan_string rest of None \<Rightarrow> None | Some (s, t) \<Rightarrow> Some (c # s, t)))"
proof -
  consider (q) "c = CHR 0x22" | (b) "c = CHR 0x5C" | (bs) "c = CHR 0x08" | (ff) "c = CHR 0x0C"
    | (nl) "c = CHR 0x0A" | (cr) "c = CHR 0x0D" | (tab) "c = CHR 0x09"
    | (ctl) "c \<noteq> CHR 0x22" "c \<noteq> CHR 0x5C" "c \<noteq> CHR 0x08" "c \<noteq> CHR 0x0C"
        "c \<noteq> CHR 0x0A" "c \<noteq> CHR 0x0D" "c \<noteq> CHR 0x09" "(of_char c :: nat) < 32"
    | (plain) "c \<noteq> CHR 0x22" "c \<noteq> CHR 0x5C" "c \<noteq> CHR 0x08" "c \<noteq> CHR 0x0C"
        "c \<noteq> CHR 0x0A" "c \<noteq> CHR 0x0D" "c \<noteq> CHR 0x09" "\<not> (of_char c :: nat) < 32"
    by blast
  then show ?thesis
  proof cases
    case q
    then show ?thesis
      by (simp add: quote_char_def unescape_simple_def scan_string_quote split: option.splits)
  next
    case b
    then show ?thesis
      by (simp add: quote_char_def unescape_simple_def scan_string_quote split: option.splits)
  next
    case bs
    then show ?thesis
      by (simp add: quote_char_def unescape_simple_def scan_string_quote split: option.splits)
  next
    case ff
    then show ?thesis
      by (simp add: quote_char_def unescape_simple_def scan_string_quote split: option.splits)
  next
    case nl
    then show ?thesis
      by (simp add: quote_char_def unescape_simple_def scan_string_quote split: option.splits)
  next
    case cr
    then show ?thesis
      by (simp add: quote_char_def unescape_simple_def scan_string_quote split: option.splits)
  next
    case tab
    then show ?thesis
      by (simp add: quote_char_def unescape_simple_def scan_string_quote split: option.splits)
  next
    case ctl
    have qc: "quote_char c = [CHR 0x5C, CHR ''u'', CHR ''0'', CHR ''0'',
              hex_digit (of_char c div 16), hex_digit (of_char c mod 16)]"
      using ctl by (simp add: quote_char_def)
    show ?thesis
      unfolding qc
      using scan_string_u [OF unescape_control [OF ctl(8)]]
      by (simp add: scan_string_quote split: option.splits del: scan_string.simps)
  next
    case plain
    have qc: "quote_char c = [c]" using plain by (simp add: quote_char_def)
    show ?thesis
      unfolding qc
      using scan_string_plain [OF plain(1) plain(2) plain(8)]
      by (simp add: scan_string_quote split: option.splits del: scan_string.simps)
  qed
qed

lemma scan_string_body:
  "scan_string (concat (map quote_char s) @ CHR 0x22 # r) = Some (s, r)"
proof (induction s)
  case Nil
  show ?case by (simp add: scan_string_quote)
next
  case (Cons c s)
  have "concat (map quote_char s) @ CHR 0x22 # r \<noteq> []" by simp
  then have "scan_string (quote_char c @ (concat (map quote_char s) @ CHR 0x22 # r)) =
      (case scan_string (concat (map quote_char s) @ CHR 0x22 # r) of
         None \<Rightarrow> None | Some (s, t) \<Rightarrow> Some (c # s, t))"
    using scan_string_quote_char [of c r "concat (map quote_char s) @ CHR 0x22 # r"] by blast
  with Cons show ?case by simp
qed

lemma scan_string_quoted:
  "scan_string (tl (quote s) @ r) = Some (s, r)"
  by (simp add: quote_def scan_string_body)

subsection \<open>Values\<close>

lemma value_start_not_ws: "value_start c \<Longrightarrow> \<not> is_ws c"
  by (auto simp: value_start_def is_ws_def is_digit_def)

lemma value_start_not_close:
  "value_start c \<Longrightarrow> c \<noteq> CHR 0x5D \<and> c \<noteq> CHR 0x7D \<and> c \<noteq> CHR '',''"
  by (auto simp: value_start_def is_digit_def)

lemma skip_ws_start: "\<not> is_ws c \<Longrightarrow> skip_ws (c # r) = c # r"
  by (simp add: skip_ws_def)

lemma json_data_stringify: "json_data v \<Longrightarrow> \<exists>s. stringify v = Some s"
  by (cases v) simp_all

lemma stringify_start:
  assumes "json_data v" and "stringify v = Some s"
  shows "\<exists>c s'. s = c # s' \<and> value_start c"
proof (cases v)
  case (JNum x)
  with assms(1) have jx: "json_number x" by simp
  then have "is_finite x" by (cases x) auto
  with JNum assms(2) have s: "s = number_to_string x" by simp
  obtain c cs where "number_to_string x = c # cs" and "c = CHR ''-'' \<or> is_digit c"
    using number_to_string_start [OF jx] by (cases "number_to_string x") auto
  with s show ?thesis by (auto simp: value_start_def)
qed (use assms in \<open>auto simp: value_start_def quote_def\<close>)

lemma parse_value_null:
  "4 \<le> n \<Longrightarrow> parse_value n (''null'' @ r) = Some (JNull, r)"
  by (cases n) (simp_all add: skip_ws_def is_ws_def)

lemma parse_value_true:
  "4 \<le> n \<Longrightarrow> parse_value n (''true'' @ r) = Some (JBool True, r)"
  by (cases n) (simp_all add: skip_ws_def is_ws_def)

lemma parse_value_false:
  "5 \<le> n \<Longrightarrow> parse_value n (''false'' @ r) = Some (JBool False, r)"
  by (cases n) (simp_all add: skip_ws_def is_ws_def)

lemma parse_value_string:
  "0 < n \<Longrightarrow> parse_value n (quote s @ r) = Some (JStr s, r)"
  by (cases n) (simp_all add: quote_def skip_ws_def is_ws_def scan_string_body)

lemma parse_value_number:
  assumes "json_number x" and "delim r" and "0 < n"
  shows "parse_value n (number_to_string x @ r) = Some (JNum x, r)"
proof -
  obtain c cs where s: "number_to_string x = c # cs" and c: "c = CHR ''-'' \<or> is_digit c"
    using number_to_string_start [OF assms(1)] by (cases "number_to_string x") auto
  obtain m where n: "n = Suc m" using assms(3) by (cases n) auto
  have ws: "skip_ws (c # cs @ r) = c # cs @ r"
    using c by (auto simp: skip_ws_def is_ws_def is_digit_def)
  have d: "c \<noteq> CHR 0x7B" "c \<noteq> CHR 0x5B" "c \<noteq> CHR 0x22" "c \<noteq> CHR ''t''"
    "c \<noteq> CHR ''f''" "c \<noteq> CHR ''n''"
    using c by (auto simp: is_digit_def)
  have "parse_value (Suc m) (c # cs @ r) =
      map_option (\<lambda>(x, t). (JNum x, t)) (scan_number (c # cs @ r))"
    using d by (simp add: ws)
  then show ?thesis
    using scan_number_to_string [OF assms(1,2)] s n by simp
qed

subsection \<open>Arrays and objects\<close>

lemma parse_value_array_empty:
  "0 < n \<Longrightarrow> parse_value n (''[]'' @ r) = Some (JArr [], r)"
  by (cases n) (simp_all add: skip_ws_def is_ws_def)

lemma parse_value_object_empty:
  "0 < n \<Longrightarrow> parse_value n (''{}'' @ r) = Some (JObj [], r)"
  by (cases n) (simp_all add: skip_ws_def is_ws_def)

lemma parse_value_array:
  assumes "value_start c"
  shows "parse_value (Suc n) (CHR 0x5B # c # rest) =
           map_option (\<lambda>(xs, t). (JArr xs, t)) (parse_elems n [] (c # rest))"
  using value_start_not_ws [OF assms] value_start_not_close [OF assms]
  by (simp add: skip_ws_def is_ws_def)

lemma parse_value_object:
  "parse_value (Suc n) (CHR 0x7B # CHR 0x22 # rest) =
           map_option (\<lambda>(fs, t). (JObj fs, t)) (parse_props n [] (CHR 0x22 # rest))"
  by (simp add: skip_ws_def is_ws_def)

lemma parse_elems_next:
  assumes "parse_value n s = Some (v, CHR '','' # r')"
  shows "parse_elems (Suc n) acc s = parse_elems n (acc @ [v]) r'"
  using assms by (simp add: skip_ws_def is_ws_def)

lemma parse_elems_last:
  assumes "parse_value n s = Some (v, CHR 0x5D # r')"
  shows "parse_elems (Suc n) acc s = Some (acc @ [v], r')"
  using assms by (simp add: skip_ws_def is_ws_def)

lemma parse_props_next:
  assumes "parse_value n s = Some (v, CHR '','' # r')"
  shows "parse_props (Suc n) acc (quote k @ CHR '':'' # s) = parse_props n (obj_set acc k v) r'"
  using assms by (simp add: quote_def scan_string_body skip_ws_def is_ws_def)

lemma parse_props_last:
  assumes "parse_value n s = Some (v, CHR 0x7D # r')"
  shows "parse_props (Suc n) acc (quote k @ CHR '':'' # s) = Some (obj_set acc k v, r')"
  using assms by (simp add: quote_def scan_string_body skip_ws_def is_ws_def)

lemma obj_set_fresh: "k \<notin> fst ` set acc \<Longrightarrow> obj_set acc k v = acc @ [(k, v)]"
  by (induction acc) auto

lemma delim_simps [simp]:
  "delim []" "delim (CHR '','' # r)" "delim (CHR 0x5D # r)" "delim (CHR 0x7D # r)"
  by (simp_all add: delim_def)

lemma join_with_Cons:
  "ts \<noteq> [] \<Longrightarrow> join_with sep (t # ts) = t @ sep @ join_with sep ts"
  by (cases ts) simp_all

lemma stringify_elems_Cons:
  "stringify x = Some t \<Longrightarrow> stringify_elems (x # xs) = t # stringify_elems xs"
  by simp

lemma stringify_elems_empty: "stringify_elems xs = [] \<longleftrightarrow> xs = []"
  by (cases xs) simp_all

lemma stringify_props_Cons:
  "stringify v = Some t \<Longrightarrow>
   stringify_props ((k, v) # fs) = (quote k @ CHR '':'' # t) # stringify_props fs"
  by simp

lemma stringify_props_empty: "json_data_props fs \<Longrightarrow> stringify_props fs = [] \<longleftrightarrow> fs = []"
proof (cases fs)
  case Nil
  then show ?thesis by simp
next
  case (Cons p ps)
  assume "json_data_props fs"
  with Cons obtain k v where p: "p = (k, v)" and "json_data v" by (cases p) auto
  then obtain t where "stringify v = Some t" using json_data_stringify by blast
  with Cons p show ?thesis by simp
qed

lemma join_elems_start:
  assumes "xs \<noteq> []" and "json_data_elems xs"
  shows "\<exists>c J. join_with '','' (stringify_elems xs) = c # J \<and> value_start c"
proof -
  obtain x ys where xs: "xs = x # ys" using assms(1) by (cases xs) auto
  with assms(2) have jx: "json_data x" by simp
  then obtain t where t: "stringify x = Some t"
    using json_data_stringify by auto
  obtain c t' where c: "t = c # t'" "value_start c" using stringify_start [OF jx t] by blast
  show ?thesis
  proof (cases "stringify_elems ys = []")
    case True
    with xs t c show ?thesis by simp
  next
    case False
    with xs t c show ?thesis by (simp add: join_with_Cons)
  qed
qed

lemma join_props_start:
  assumes "fs \<noteq> []" and "json_data_props fs"
  shows "\<exists>J. join_with '','' (stringify_props fs) = CHR 0x22 # J"
proof -
  obtain k v ps where fs: "fs = (k, v) # ps" using assms(1) by (cases fs) auto
  with assms(2) obtain t where t: "stringify v = Some t"
    using json_data_stringify by auto
  show ?thesis
  proof (cases "stringify_props ps = []")
    case True
    with fs t show ?thesis by (simp add: quote_def)
  next
    case False
    with fs t show ?thesis by (simp add: join_with_Cons quote_def)
  qed
qed

lemma parse_roundtrip:
  "json_data v \<Longrightarrow> stringify v = Some s \<Longrightarrow> delim r \<Longrightarrow> length s \<le> n \<Longrightarrow>
     parse_value n (s @ r) = Some (v, r)"
  "json_data_elems xs \<Longrightarrow> xs \<noteq> [] \<Longrightarrow>
     length (join_with '','' (stringify_elems xs)) < n \<Longrightarrow>
     parse_elems n acc (join_with '','' (stringify_elems xs) @ CHR 0x5D # r) = Some (acc @ xs, r)"
  "json_data_props fs \<Longrightarrow> fs \<noteq> [] \<Longrightarrow> distinct (map fst pacc @ map fst fs) \<Longrightarrow>
     length (join_with '','' (stringify_props fs)) < n \<Longrightarrow>
     parse_props n pacc (join_with '','' (stringify_props fs) @ CHR 0x7D # r) = Some (pacc @ fs, r)"
proof (induction v and xs and fs arbitrary: s r n and acc r n and pacc r n
    rule: json_data_json_data_elems_json_data_props.induct)
  case 1
  then show ?case by simp
next
  case 2
  then have "4 \<le> n" and "s = ''null''" by auto
  then show ?case using parse_value_null [of n r] by simp
next
  case (3 b)
  show ?case
  proof (cases b)
    case True
    with 3 have "4 \<le> n" and "s = ''true''" by auto
    with True show ?thesis using parse_value_true [of n r] by simp
  next
    case False
    with 3 have "5 \<le> n" and "s = ''false''" by auto
    with False show ?thesis using parse_value_false [of n r] by simp
  qed
next
  case (4 x)
  from 4(1) have jx: "json_number x" by simp
  then have "is_finite x" by (cases x) auto
  with 4(2) have s: "s = number_to_string x" by simp
  have "number_to_string x \<noteq> []" using number_to_string_start [OF jx] by simp
  with 4(4) s have "0 < n" by (cases n) auto
  with 4(3) s jx show ?case by (simp add: parse_value_number)
next
  case (5 t)
  then have s: "s = quote t" by auto
  with 5(4) have "0 < n" by (cases n) (auto simp: quote_def)
  with s show ?case by (simp add: parse_value_string)
next
  case (6 d)
  then show ?case by simp
next
  case (7 xs)
  from 7(2) have dx: "json_data_elems xs" by simp
  from 7(3) have s: "s = CHR 0x5B # join_with '','' (stringify_elems xs) @ [CHR 0x5D]" by auto
  show ?case
  proof (cases "xs = []")
    case True
    with s 7(5) have "0 < n" by (cases n) auto
    with True s show ?thesis using parse_value_array_empty [of n r] by simp
  next
    case False
    obtain c J where J: "join_with '','' (stringify_elems xs) = c # J" and c: "value_start c"
      using join_elems_start [OF False dx] by blast
    obtain m where n: "n = Suc m" using s 7(5) by (cases n) auto
    have len: "length (join_with '','' (stringify_elems xs)) < m"
      using s 7(5) n by simp
    have "parse_elems m [] (join_with '','' (stringify_elems xs) @ CHR 0x5D # r) =
        Some ([] @ xs, r)"
      using dx False len by (rule "7.IH")
    then have "parse_elems m [] (c # J @ CHR 0x5D # r) = Some (xs, r)"
      by (simp add: J)
    then show ?thesis
      using parse_value_array [OF c, of m "J @ CHR 0x5D # r"] s n J by simp
  qed
next
  case (8 fs)
  from 8(2) have dx: "json_data_props fs" and dist: "distinct (map fst fs)" by simp_all
  from 8(3) have s: "s = CHR 0x7B # join_with '','' (stringify_props fs) @ [CHR 0x7D]" by auto
  show ?case
  proof (cases "fs = []")
    case True
    with s 8(5) have "0 < n" by (cases n) auto
    with True s show ?thesis using parse_value_object_empty [of n r] by simp
  next
    case False
    obtain J where J: "join_with '','' (stringify_props fs) = CHR 0x22 # J"
      using join_props_start [OF False dx] by blast
    obtain m where n: "n = Suc m" using s 8(5) by (cases n) auto
    have len: "length (join_with '','' (stringify_props fs)) < m"
      using s 8(5) n by simp
    have d0: "distinct (map fst [] @ map fst fs)" using dist by simp
    have "parse_props m [] (join_with '','' (stringify_props fs) @ CHR 0x7D # r) =
        Some ([] @ fs, r)"
      using dx False d0 len by (rule "8.IH")
    then have "parse_props m [] (CHR 0x22 # J @ CHR 0x7D # r) = Some (fs, r)"
      by (simp add: J)
    then show ?thesis
      using parse_value_object [of m "J @ CHR 0x7D # r"] s n J by simp
  qed
next
  case 9
  then show ?case by simp
next
  case (10 x xs)
  from "10.prems"(1) have dx: "json_data x" and dxs: "json_data_elems xs" by simp_all
  obtain t where t: "stringify x = Some t" using json_data_stringify [OF dx] by blast
  obtain m where n: "n = Suc m" using "10.prems"(3) by (cases n) auto
  show ?case
  proof (cases "xs = []")
    case True
    with t "10.prems"(3) n have "length t \<le> m" by simp
    then have "parse_value m (t @ CHR 0x5D # r) = Some (x, CHR 0x5D # r)"
      using "10.IH"(1) [OF dx t, of "CHR 0x5D # r" m] by simp
    then have "parse_elems (Suc m) acc (t @ CHR 0x5D # r) = Some (acc @ [x], r)"
      by (rule parse_elems_last)
    with True t n show ?thesis by simp
  next
    case False
    then have ne: "stringify_elems xs \<noteq> []" by (simp add: stringify_elems_empty)
    have J: "join_with '','' (stringify_elems (x # xs)) =
        t @ '','' @ join_with '','' (stringify_elems xs)"
      using t ne by (simp add: join_with_Cons)
    from "10.prems"(3) n J have lt: "length t \<le> m"
      and lr: "length (join_with '','' (stringify_elems xs)) < m" by simp_all
    have "parse_value m (t @ CHR '','' # join_with '','' (stringify_elems xs) @ CHR 0x5D # r) =
        Some (x, CHR '','' # join_with '','' (stringify_elems xs) @ CHR 0x5D # r)"
      using "10.IH"(1) [OF dx t _ lt] by simp
    then have "parse_elems (Suc m) acc
        (t @ CHR '','' # join_with '','' (stringify_elems xs) @ CHR 0x5D # r) =
        parse_elems m (acc @ [x]) (join_with '','' (stringify_elems xs) @ CHR 0x5D # r)"
      by (rule parse_elems_next)
    also have "\<dots> = Some ((acc @ [x]) @ xs, r)"
      using "10.IH"(2) [OF dxs False lr] .
    finally show ?thesis using n J by simp
  qed
next
  case 11
  then show ?case by simp
next
  case (12 k v fs)
  from "12.prems"(1) have dv: "json_data v" and dfs: "json_data_props fs" by simp_all
  obtain t where t: "stringify v = Some t" using json_data_stringify [OF dv] by blast
  obtain m where n: "n = Suc m" using "12.prems"(4) by (cases n) auto
  have fresh: "k \<notin> fst ` set pacc" using "12.prems"(3) by auto
  have set: "obj_set pacc k v = pacc @ [(k, v)]" using fresh by (rule obj_set_fresh)
  show ?case
  proof (cases "fs = []")
    case True
    with t "12.prems"(4) n have "length t \<le> m" by simp
    then have "parse_value m (t @ CHR 0x7D # r) = Some (v, CHR 0x7D # r)"
      using "12.IH"(1) [OF dv t, of "CHR 0x7D # r" m] by simp
    then have "parse_props (Suc m) pacc (quote k @ CHR '':'' # t @ CHR 0x7D # r) =
        Some (obj_set pacc k v, r)"
      by (rule parse_props_last)
    with True t n set show ?thesis by simp
  next
    case False
    then have ne: "stringify_props fs \<noteq> []" using dfs by (simp add: stringify_props_empty)
    have J: "join_with '','' (stringify_props ((k, v) # fs)) =
        (quote k @ CHR '':'' # t) @ '','' @ join_with '','' (stringify_props fs)"
      using t ne by (simp add: join_with_Cons)
    from "12.prems"(4) n J have lt: "length t \<le> m"
      and lr: "length (join_with '','' (stringify_props fs)) < m" by simp_all
    have dist: "distinct (map fst (pacc @ [(k, v)]) @ map fst fs)"
      using "12.prems"(3) by auto
    have "parse_value m (t @ CHR '','' # join_with '','' (stringify_props fs) @ CHR 0x7D # r) =
        Some (v, CHR '','' # join_with '','' (stringify_props fs) @ CHR 0x7D # r)"
      using "12.IH"(1) [OF dv t _ lt] by simp
    then have "parse_props (Suc m) pacc
        (quote k @ CHR '':'' #
           t @ CHR '','' # join_with '','' (stringify_props fs) @ CHR 0x7D # r) =
        parse_props m (obj_set pacc k v) (join_with '','' (stringify_props fs) @ CHR 0x7D # r)"
      by (rule parse_props_next)
    also have "\<dots> = Some ((pacc @ [(k, v)]) @ fs, r)"
      unfolding set using "12.IH"(2) [OF dfs False dist lr] .
    finally show ?thesis using n J by simp
  qed
qed

text \<open>
  \<open>JSON.parse(JSON.stringify(v))\<close> is \<open>v\<close> for JSON data.
\<close>

lemma JSON_parse_stringify:
  assumes "json_data v"
  shows "\<exists>s. JSON_stringify v = Some s \<and> JSON_parse s = Some v"
proof -
  obtain s where s: "stringify v = Some s" using json_data_stringify [OF assms] by blast
  have "parse_value (Suc (length s)) (s @ []) = Some (v, [])"
    using assms s by (rule parse_roundtrip(1)) simp_all
  then have "JSON_parse s = Some v" by (simp add: JSON_parse_def skip_ws_def)
  with s show ?thesis by (simp add: JSON_stringify_def)
qed

subsection \<open>Numbers, written and read\<close>

lemma number_texts:
  "JSON_stringify (JNum (Num (1 / 2))) = Some ''0.5''"
  "JSON_stringify (JNum (Num (- 3 / 2))) = Some ''-1.5''"
  "JSON_stringify (JNum (Num 1000000000000000000000)) = Some ''1e+21''"
  "JSON_stringify (JNum NaN) = Some ''null''"
  "JSON_stringify (JNum PosInf) = Some ''null''"
  "JSON_stringify (JNum NegZero) = Some ''0''"
  by (simp_all add: json_eval)

lemma number_literals:
  "JSON_parse ''0.5'' = Some (JNum (Num (1 / 2)))"
  "JSON_parse ''1e+21'' = Some (JNum (Num 1000000000000000000000))"
  "JSON_parse ''-0'' = Some (JNum NegZero)"
  "JSON_parse ''1e400'' = Some (JNum PosInf)"
  "JSON_parse ''9007199254740993'' = Some (JNum (Num 9007199254740992))"
  "JSON_parse ''01'' = None"
  by (simp_all add: json_eval)

section \<open>Sealing and unsealing\<close>

lemma hex_decode_hex_byte: "hex_decode (hex_byte b @ r) = b # hex_decode r"
proof -
  have "unat b < 2 ^ LENGTH(8)" by (rule unsigned_less)
  then have lt: "unat b < 256" by simp
  then have d: "unat b div 16 < 16" "unat b mod 16 < 16" by simp_all
  have "(of_nat (16 * (unat b div 16) + unat b mod 16) :: byte) = of_nat (unat b)" by simp
  then have "(of_nat (16 * (unat b div 16) + unat b mod 16) :: byte) = b" by simp
  then show ?thesis
    by (simp add: hex_byte_def hex_val_hex_digit [OF d(1)] hex_val_hex_digit [OF d(2)])
qed

lemma hex_decode_encode: "hex_decode (hex_encode bs) = bs"
  by (induction bs) (simp_all add: hex_encode_def hex_decode_hex_byte)

lemma length_hex_encode: "length (hex_encode bs) = 2 * length bs"
  by (induction bs) (simp_all add: hex_encode_def hex_byte_def)

lemma utf8_decode_encode: "utf8_decode (utf8_encode s) = s"
proof -
  have "char_of (unat (of_nat (of_char c) :: byte)) = c" for c :: char
  proof -
    have "(of_char c :: nat) < 256" by simp
    then have "unat (of_nat (of_char c) :: byte) = of_char c"
      by (simp add: unat_of_nat)
    then show ?thesis by simp
  qed
  then show ?thesis by (simp add: utf8_decode_def utf8_encode_def map_idI)
qed

lemma sample_gcm_correct: "gcm_correct sample_platform"
  by (auto simp: gcm_correct_def sample_platform_def o_def split: if_splits)

text \<open>
  Decrypting what \<open>encrypt\<close> returned reads back the JSON text that was sealed.
\<close>

lemma decrypt_encrypt_text:
  assumes "gcm_correct P" and "encrypt P p k i = Inr (c, t)"
  shows "\<exists>s. JSON_stringify p = Some s \<and>
           decrypt P c k i t =
             (case JSON_parse s of None \<Rightarrow> Inl DecryptionFailed | Some v \<Rightarrow> Inr v)"
proof -
  from assms(2) obtain s e g where s: "JSON_stringify p = Some s"
    and seal: "gcm_seal P (base64_decode P k) (base64_decode P i) AAD (utf8_encode s) = Some (e, g)"
    and c: "c = hex_encode e" and t: "t = hex_encode g"
    by (auto simp: encrypt_def Let_def split: option.splits)
  from assms(1) seal
  have "gcm_open P (base64_decode P k) (base64_decode P i) AAD g e = Some (utf8_encode s)"
    unfolding gcm_correct_def by blast
  then have "decrypt P c k i t =
      (case JSON_parse s of None \<Rightarrow> Inl DecryptionFailed | Some v \<Rightarrow> Inr v)"
    by (simp add: decrypt_def c t hex_decode_encode utf8_decode_encode length_hex_encode)
  with s show ?thesis by blast
qed

text \<open>
  C4, as amended. For every payload \<open>p\<close> that is JSON data (null, booleans, finite
  numbers other than \<open>- 0\<close>, strings, and arrays and objects of these with no property
  name twice), every key and iv, and a cipher that opens what it sealed: decrypting what
  \<open>encrypt\<close> returned for \<open>p\<close>, with the tag it returned, gives exactly \<open>p\<close>.
\<close>

theorem decrypt_encrypt_json_data:
  assumes "gcm_correct P" and "json_data p" and "encrypt P p k i = Inr (c, t)"
  shows "decrypt P c k i t = Inr p"
proof -
  obtain s where s: "JSON_stringify p = Some s"
    and d: "decrypt P c k i t =
             (case JSON_parse s of None \<Rightarrow> Inl DecryptionFailed | Some v \<Rightarrow> Inr v)"
    using decrypt_encrypt_text [OF assms(1) assms(3)] by blast
  obtain s' where "JSON_stringify p = Some s'" and "JSON_parse s' = Some p"
    using JSON_parse_stringify [OF assms(2)] by blast
  with s d show ?thesis by simp
qed

lemma sample_encrypt_analysis:
  "encrypt sample_platform (JObj [(''risk'', JNum (Num 2))]) sample_key sample_iv =
     Inr (''7c23736a746c233b337e'', ''0a0b0c0d0e0f10111213141516171819'')"
  by (simp add: json_eval crypto_eval)

theorem decrypt_encrypt_json_data_witness:
  "json_data (JObj [(''risk'', JNum (Num 2))]) \<and>
   encrypt sample_platform (JObj [(''risk'', JNum (Num 2))]) sample_key sample_iv =
     Inr (''7c23736a746c233b337e'', ''0a0b0c0d0e0f10111213141516171819'') \<and>
   decrypt sample_platform ''7c23736a746c233b337e'' sample_key sample_iv
     ''0a0b0c0d0e0f10111213141516171819'' = Inr (JObj [(''risk'', JNum (Num 2))])"
  using decrypt_encrypt_json_data [OF sample_gcm_correct _ sample_encrypt_analysis]
    sample_encrypt_analysis
  by (simp add: number_eval)

text \<open>
  The claim as stated fails for a payload that holds a \<open>Date\<close>, as the content payload
  of every record does in \<open>uploadDate\<close>: the text that is sealed holds the date as a
  string, and a string is what decrypting gives back.
\<close>

theorem date_payload_counterexample:
  "encrypt sample_platform (JObj [(''uploadDate'', JDate ''2025-01-01T00:00:00.000Z'')])
     sample_key sample_iv =
     Inr (''7c2376716d70626545627566233b23333133362e31322e31325531313b31313b31312f3131315b237e'',
          ''292a2b2c2d2e2f303132333435363738'') \<and>
   decrypt sample_platform
     ''7c2376716d70626545627566233b23333133362e31322e31325531313b31313b31312f3131315b237e''
     sample_key sample_iv ''292a2b2c2d2e2f303132333435363738'' =
     Inr (JObj [(''uploadDate'', JStr ''2025-01-01T00:00:00.000Z'')]) \<and>
   JObj [(''uploadDate'', JStr ''2025-01-01T00:00:00.000Z'')] \<noteq>
     JObj [(''uploadDate'', JDate ''2025-01-01T00:00:00.000Z'')]"
  by (simp add: json_eval crypto_eval)

text \<open>
  So it does for a number that is not finite, which is sealed as \<open>null\<close>, and for
  \<open>- 0\<close>, which is sealed as \<open>0\<close>.
\<close>

lemma number_payloads_not_restored:
  "encrypt sample_platform (JNum NaN) sample_key sample_iv =
     Inr (''6f766d6d'', ''0405060708090a0b0c0d0e0f10111213'')"
  "decrypt sample_platform ''6f766d6d'' sample_key sample_iv
     ''0405060708090a0b0c0d0e0f10111213'' = Inr JNull"
  "encrypt sample_platform (JNum NegZero) sample_key sample_iv =
     Inr (''31'', ''0102030405060708090a0b0c0d0e0f10'')"
  "decrypt sample_platform ''31'' sample_key sample_iv
     ''0102030405060708090a0b0c0d0e0f10'' = Inr (JNum (Num 0))"
  by (simp_all add: json_eval crypto_eval)

text \<open>
  When the ciphertext has an odd number of characters, the cipher refuses the key, the iv,
  the tag or the data, or the plaintext is not JSON text, \<open>decrypt\<close> gives the error and
  no data; and what it returns is the value of a plaintext that the cipher has opened.
\<close>

lemma decrypt_fails_closed:
  "odd (length c) \<Longrightarrow> decrypt P c k i t = Inl DecryptionFailed"
  "gcm_open P (base64_decode P k) (base64_decode P i) AAD (hex_decode t) (hex_decode c) = None
   \<Longrightarrow> decrypt P c k i t = Inl DecryptionFailed"
  "gcm_open P (base64_decode P k) (base64_decode P i) AAD (hex_decode t) (hex_decode c) = Some d
   \<Longrightarrow> JSON_parse (utf8_decode d) = None \<Longrightarrow> decrypt P c k i t = Inl DecryptionFailed"
  by (simp_all add: decrypt_def)

lemma decrypt_returns_opened:
  "decrypt P c k i t = Inr v \<Longrightarrow>
   \<exists>d. gcm_open P (base64_decode P k) (base64_decode P i) AAD (hex_decode t) (hex_decode c) =
         Some d \<and> JSON_parse (utf8_decode d) = Some v"
  by (auto simp: decrypt_def split: if_splits option.splits)

section \<open>Altered ciphertexts, tags and keys\<close>




text \<open>
  \<open>decrypt\<close> reads the ciphertext, the tag, the key and the iv through their decodings: texts
  that decode to the same bytes are decrypted alike.
\<close>

lemma decrypt_of_decoded:
  assumes "hex_decode c' = hex_decode c" and "even (length c') = even (length c)"
    and "hex_decode t' = hex_decode t"
    and "base64_decode P k' = base64_decode P k" and "base64_decode P i' = base64_decode P i"
  shows "decrypt P c' k' i' t' = decrypt P c k i t"
  using assms by (simp add: decrypt_def)





section \<open>The sealing of created records\<close>




lemma deleteFileIfExists_random: "random (deleteFileIfExists p w) = random w"
  by (simp add: deleteFileIfExists_def)

lemma analyze_try_random:
  "analyze_try P now result req f p h w = (r, w') \<Longrightarrow>
   entropy (random w') = entropy (random w) \<and> drawn (random w) \<le> drawn (random w')"
  by (auto simp: analyze_try_def Let_def deleteFileIfExists_def
      split: analyzer_result.splits option.splits if_splits sum.splits prod.splits
      dest!: createSignature_rng)

lemma analyze_hit_random: "random (snd (analyze_hit P now p d w)) = random w"
  by (auto simp: analyze_hit_def Let_def deleteFileIfExists_def
      split: option.splits sum.splits prod.splits)

text \<open>A request moves the generator on, or leaves it where it is.\<close>

lemma analyze_random:
  "entropy (random (snd (analyze P now result req w))) = entropy (random w) \<and>
   drawn (random w) \<le> drawn (random (snd (analyze P now result req w)))"
proof -
  have miss: "entropy (random (snd (analyze_miss P now result req f p h w))) = entropy (random w) \<and>
      drawn (random w) \<le> drawn (random (snd (analyze_miss P now result req f p h w)))" for f p h
  proof (cases "analyze_try P now result req f p h w")
    case (Pair r w')
    from analyze_try_random [OF Pair] Pair show ?thesis
      by (cases r) (simp_all add: analyze_miss_def deleteFileIfExists_random)
  qed
  show ?thesis
    using miss
    by (auto simp: analyze_def analyze_hit_random split: sum.splits option.splits prod.splits)
qed





text \<open>
  Two sealings of one text under one key and iv are one ciphertext and one tag: the tags
  of a record are two fields, and are equal when the two payloads have the same JSON text.
\<close>

lemma equal_texts_equal_tags:
  assumes "createSignature P c a u g = (Inr s, g')" and "JSON_stringify c = JSON_stringify a"
  shows "s_contentTag s = s_analysisTag s \<and> s_encryptedContent s = s_encryptedAnalysis s"
proof -
  have "encrypt P c k i = encrypt P a k i" for k i
    using assms(2) by (simp add: encrypt_def)
  with createSignature_Inr [OF assms(1)] show ?thesis by auto
qed


section \<open>A stored contract is found and read again\<close>

lemma stringify_None: "stringify v = None \<longleftrightarrow> v = JUndefined"
  by (cases v) simp_all

lemma stringify_content:
  "stringify (JObj [(''fileName'', JStr name), (''fileSize'', JInt n), (''fileType'', JStr type),
                    (''uploadDate'', JDate t), (''extractedText'', x)]) =
   stringify (stored_content name n type t x)"
proof (cases "x = JUndefined")
  case True
  then show ?thesis by (simp add: stored_content_def)
next
  case False
  then obtain s where "stringify x = Some s" using stringify_None [of x] by auto
  with False show ?thesis by (simp add: stored_content_def)
qed

lemma json_data_stored_content:
  "x = JUndefined \<or> json_data x \<Longrightarrow> \<bar>n\<bar> < 2 ^ 53 \<Longrightarrow>
   json_data (stored_content name n type t x)"
  using json_number_of_int [of n] by (auto simp: stored_content_def)

lemma json_data_props_map_of:
  "json_data_props fs \<Longrightarrow> map_of fs k = Some v \<Longrightarrow> json_data v"
  by (induction fs) (auto split: if_splits)

lemma json_data_get_prop:
  "json_data r \<Longrightarrow> get_prop r k = Some v \<Longrightarrow> v = JUndefined \<or> json_data v"
  by (cases r) (auto split: option.splits dest: json_data_props_map_of)

lemma decryptData_decrypt:
  "decrypt P c k i t = Inr v \<Longrightarrow> decryptData P c k i t = Inr v"
  by (auto simp: decrypt_def decryptData_def Let_def split: option.splits if_splits)

text \<open>
  With a cipher that opens what it sealed, what \<open>encrypt\<close> returned is read back by
  \<open>decryptData\<close> as the value that the sealed JSON text denotes.
\<close>

lemma decryptData_encrypt:
  assumes "gcm_correct P" and "encrypt P p k i = Inr (c, t)"
    and "stringify p = stringify q" and "json_data q"
  shows "decryptData P c k i t = Inr q"
proof -
  obtain s where s: "JSON_stringify p = Some s"
    and d: "decrypt P c k i t =
             (case JSON_parse s of None \<Rightarrow> Inl DecryptionFailed | Some v \<Rightarrow> Inr v)"
    using decrypt_encrypt_text [OF assms(1) assms(2)] by blast
  obtain s' where "JSON_stringify q = Some s'" and "JSON_parse s' = Some q"
    using JSON_parse_stringify [OF assms(4)] by blast
  with s d assms(3) have "decrypt P c k i t = Inr q" by (simp add: JSON_stringify_def)
  then show ?thesis by (rule decryptData_decrypt)
qed

lemma analyze_try_Inr_resp:
  assumes "analyze_try P now result req f p h w = (Inr resp, w')"
  shows "\<exists>r analysis x.
           result = Resolved r \<and> get_prop r ''analysis'' = Some analysis \<and>
           truthy analysis \<and> get_prop r ''extracted_text'' = Some x \<and>
           status_code resp = 200 \<and>
           get_prop (body resp) ''analysis'' = Some analysis \<and>
           get_prop (body resp) ''extracted_text'' = Some x \<and>
           get_prop (body resp) ''isDuplicate'' = Some (JBool False)"
  using assms
  by (auto simp: analyze_try_def Let_def
      split: analyzer_result.splits option.splits if_splits sum.splits prod.splits)

text \<open>
  The record that \<open>/analyze\<close> creates can be read: when the analyzer resolved to JSON data
  and the cipher opens what it sealed, the record's analysis decrypts to the analyzer's
  analysis, and its content to the upload's description with the date as a string.
\<close>

lemma created_record_readable:
  assumes "gcm_correct P" and "json_data r"
    and "analyze_try P now (Resolved r) req f p h w = (Inr resp, w')"
    and "\<bar>size_f f\<bar> < 2 ^ 53"
  shows "\<exists>d analysis x.
           docs w' = docs w @ [d] \<and> fileHash d = h \<and> uploadedBy d = user_id req \<and>
           status d = Active \<and> accessCount d = 0 \<and>
           get_prop r ''analysis'' = Some analysis \<and>
           get_prop r ''extracted_text'' = Some x \<and>
           get_prop (body resp) ''analysis'' = Some analysis \<and>
           get_prop (body resp) ''isDuplicate'' = Some (JBool False) \<and>
           getDecryptedAnalysis P d = Inr analysis \<and>
           getDecryptedContent P d =
             Inr (stored_content (originalname f) (size_f f) (mimetype f) now x)"
proof -
  obtain r' analysis x s g where
    res: "Resolved r = Resolved r'" "get_prop r' ''analysis'' = Some analysis"
      "get_prop r' ''extracted_text'' = Some x"
    and sig: "createSignature P
             (JObj [(''fileName'', JStr (originalname f)), (''fileSize'', JInt (size_f f)),
                    (''fileType'', JStr (mimetype f)), (''uploadDate'', JDate now),
                    (''extractedText'', x)])
             analysis (user_id req) (random w) = (Inr s, g)"
    and ds: "docs w' = docs w @
             [\<lparr>doc_id = next_id w, fileHash = h, fileName = originalname f,
               fileSize = size_f f, fileType = mimetype f, uploadedBy = user_id req,
               encryptedContent = s_encryptedContent s,
               encryptedAnalysis = s_encryptedAnalysis s,
               encryptionKey = s_key s, iv = s_iv s,
               contentTag = s_contentTag s, analysisTag = s_analysisTag s,
               analysisDate = now, analysisVersion = ''1.0'', accessCount = 0,
               lastAccessed = now, status = Active, createdAt = now, updatedAt = now\<rparr>]"
    using analyze_try_Inr [OF assms(3)] by blast
  let ?d = "\<lparr>doc_id = next_id w, fileHash = h, fileName = originalname f,
               fileSize = size_f f, fileType = mimetype f, uploadedBy = user_id req,
               encryptedContent = s_encryptedContent s,
               encryptedAnalysis = s_encryptedAnalysis s,
               encryptionKey = s_key s, iv = s_iv s,
               contentTag = s_contentTag s, analysisTag = s_analysisTag s,
               analysisDate = now, analysisVersion = ''1.0'', accessCount = 0,
               lastAccessed = now, status = Active, createdAt = now, updatedAt = now\<rparr>"
  from res have r: "r' = r" by simp
  obtain r2 a2 x2 where "Resolved r = Resolved r2" "get_prop r2 ''analysis'' = Some a2"
    "truthy a2" "get_prop (body resp) ''analysis'' = Some a2"
    "get_prop (body resp) ''isDuplicate'' = Some (JBool False)"
    using analyze_try_Inr_resp [OF assms(3)] by blast
  with res r have tr: "truthy analysis"
    and body: "get_prop (body resp) ''analysis'' = Some analysis \<and>
      get_prop (body resp) ''isDuplicate'' = Some (JBool False)" by auto
  have "analysis = JUndefined \<or> json_data analysis"
    using json_data_get_prop [OF assms(2)] res(2) r by blast
  with tr have ja: "json_data analysis" by auto
  have jx: "x = JUndefined \<or> json_data x"
    using json_data_get_prop [OF assms(2)] res(3) r by blast
  note cs = createSignature_Inr [OF sig]
  have ea: "encrypt P analysis (s_key s) (s_iv s) = Inr (s_encryptedAnalysis s, s_analysisTag s)"
    using cs by blast
  have ec: "encrypt P
             (JObj [(''fileName'', JStr (originalname f)), (''fileSize'', JInt (size_f f)),
                    (''fileType'', JStr (mimetype f)), (''uploadDate'', JDate now),
                    (''extractedText'', x)])
             (s_key s) (s_iv s) = Inr (s_encryptedContent s, s_contentTag s)"
    using cs by blast
  have da: "getDecryptedAnalysis P ?d = Inr analysis"
    using decryptData_encrypt [OF assms(1) ea refl ja]
    by (simp add: getDecryptedAnalysis_def)
  have dc: "getDecryptedContent P ?d =
      Inr (stored_content (originalname f) (size_f f) (mimetype f) now x)"
    using decryptData_encrypt [OF assms(1) ec stringify_content json_data_stored_content [OF jx assms(4)]]
    by (simp add: getDecryptedContent_def)
  have sel: "fileHash ?d = h" "uploadedBy ?d = user_id req" "status ?d = Active"
    "accessCount ?d = 0" by simp_all
  from ds sel res(2,3) r body da dc show ?thesis by blast
qed

lemma findOne_appended:
  assumes "\<forall>x \<in> set ds. fileHash x \<noteq> h"
    and "fileHash d = h" and "uploadedBy d = u" and "status d = Active"
  shows "findOne h u (ds @ [d]) = Some d"
  using assms unfolding findOne_def by (induction ds) auto

lemma get_prop_stored_content:
  "get_prop (stored_content name n type t x) ''extractedText'' = Some x"
  by (simp add: stored_content_def)

text \<open>
  A contract that \<open>/analyze\<close> has stored is a cache hit for its uploader afterwards: the
  lookup finds the record, both payloads decrypt, and what they hold is the analysis and
  the extracted text that the first response carried.
\<close>

lemma created_record_found:
  assumes "gcm_correct P" and "json_data r"
    and "analyze_try P now (Resolved r) req f p h w = (Inr resp, w')"
    and "\<bar>size_f f\<bar> < 2 ^ 53"
  shows "\<exists>d a c t.
           findOne h (user_id req) (docs w') = Some d \<and>
           getDecryptedAnalysis P d = Inr a \<and>
           getDecryptedContent P d = Inr c \<and>
           get_prop c ''extractedText'' = Some t \<and>
           get_prop (body resp) ''analysis'' = Some a \<and>
           get_prop (body resp) ''extracted_text'' = Some t"
proof -
  obtain d analysis x where ds: "docs w' = docs w @ [d]"
    and sel: "fileHash d = h" "uploadedBy d = user_id req" "status d = Active"
    and x: "get_prop r ''extracted_text'' = Some x"
    and a: "get_prop (body resp) ''analysis'' = Some analysis"
    and da: "getDecryptedAnalysis P d = Inr analysis"
    and dc: "getDecryptedContent P d =
               Inr (stored_content (originalname f) (size_f f) (mimetype f) now x)"
    using created_record_readable [OF assms] by blast
  obtain r2 x2 where "Resolved r = Resolved r2" "get_prop r2 ''extracted_text'' = Some x2"
    "get_prop (body resp) ''extracted_text'' = Some x2"
    using analyze_try_Inr_resp [OF assms(3)] by blast
  with x have t: "get_prop (body resp) ''extracted_text'' = Some x" by auto
  have "\<forall>y \<in> set (docs w). fileHash y \<noteq> h"
    using analyze_try_Inr [OF assms(3)] by blast
  then have "findOne h (user_id req) (docs w') = Some d"
    unfolding ds using sel by (rule findOne_appended)
  with da dc a t get_prop_stored_content show ?thesis by blast
qed

end
